theory Spec2Isabelle
  imports Complex_Main "HOL-Library.Multiset" "HOL-Library.Product_Lexorder"
begin

section \<open>Python values\<close>

text \<open>
  The records handled by \<^verbatim>\<open>test-proxy.py\<close> are Python dictionaries with string keys.
  A dictionary is a map from keys to values; the values that occur are strings,
  booleans, numbers and the list of per-URL test results.

  Python floats are modelled by exact rationals: \<open>time.time()\<close> differences, the
  running total and the quotients are computed without binary rounding. The two
  calls of \<open>round(x, n)\<close> are modelled as Python defines them on the exact value:
  round to \<open>n\<close> decimals, ties to the even neighbour.
\<close>

datatype pynum = PyInt int | PyFloat rat

fun num_val :: "pynum \<Rightarrow> rat" where
  "num_val (PyInt i) = of_int i"
| "num_val (PyFloat q) = q"

text \<open>One entry of \<open>results\<close> in \<open>test_proxy\<close>: the keys \<open>status_code\<close> and
  \<open>error\<close> are present in some branches only.\<close>

record test_detail =
  url :: string
  success :: bool
  response_time :: pynum
  status_code :: "int option"
  error :: "string option"

datatype pyval =
    PyStr string
  | PyBool bool
  | PyNum pynum
  | PyDetails "test_detail list"

type_synonym pydict = "string \<rightharpoonup> pyval"

text \<open>Exceptions that escape a function are values of this type.\<close>

datatype error =
    KeyError string
  | ZeroDivisionError
  | TypeError
  | IndexError
  | Fault string

definition round_half_even :: "rat \<Rightarrow> int" where
  "round_half_even q =
     (let f = \<lfloor>q\<rfloor>; d = q - of_int f
      in if d < 1 / 2 then f
         else if 1 / 2 < d then f + 1
         else if even f then f else f + 1)"

definition py_round :: "rat \<Rightarrow> nat \<Rightarrow> rat" where
  "py_round q n = of_int (round_half_even (q * 10 ^ n)) / 10 ^ n"

fun digit_str :: "nat \<Rightarrow> string" where
  "digit_str n =
     (if n < 10 then [''0123456789'' ! n]
      else digit_str (n div 10) @ [''0123456789'' ! (n mod 10)])"

declare digit_str.simps [simp del]

definition py_str_int :: "int \<Rightarrow> string" where
  "py_str_int i = (if i < 0 then ''-'' @ digit_str (nat (- i)) else digit_str (nat i))"

text \<open>\<open>sep.join(xs)\<close>\<close>

fun join :: "string \<Rightarrow> string list \<Rightarrow> string" where
  "join sep [] = []"
| "join sep [x] = x"
| "join sep (x # y # ys) = x @ sep @ join sep (y # ys)"

text \<open>Truthiness of a value, as \<open>if v:\<close> tests it.\<close>

fun truthy :: "pyval \<Rightarrow> bool" where
  "truthy (PyStr s) = (s \<noteq> [])"
| "truthy (PyBool b) = b"
| "truthy (PyNum n) = (num_val n \<noteq> 0)"
| "truthy (PyDetails ds) = (ds \<noteq> [])"

text \<open>The numeric value of an operand of unary minus or of a comparison with a
  number; a string or a list raises \<open>TypeError\<close>.\<close>

fun number_of :: "pyval \<Rightarrow> error + rat" where
  "number_of (PyNum n) = Inr (num_val n)"
| "number_of (PyBool b) = Inr (if b then 1 else 0)"
| "number_of (PyStr s) = Inl TypeError"
| "number_of (PyDetails ds) = Inl TypeError"

definition getitem :: "pydict \<Rightarrow> string \<Rightarrow> error + pyval" where
  "getitem d k = (case d k of None \<Rightarrow> Inl (KeyError k) | Some v \<Rightarrow> Inr v)"

section \<open>ProxyValidator\<close>

text \<open>
  What \<open>requests.get\<close> does is outside the program. A call either returns a response
  (its status code, and the wall-clock time the caller measured around the call) or
  raises an exception of the \<open>requests\<close> library with a message. \<open>ProxyError\<close>,
  \<open>ConnectTimeout\<close> and \<open>SSLError\<close> are the classes the code names;
  \<open>ReadTimeout\<close> is the library's class for a server that sends nothing within the
  timeout, and is not a subclass of \<open>ConnectTimeout\<close>; \<open>OtherException\<close> stands for
  every other subclass of \<open>Exception\<close>.
\<close>

datatype request_exception =
    ProxyError
  | ConnectTimeout
  | SSLError
  | ReadTimeout
  | OtherException

datatype response =
    Response int rat
  | Raises request_exception string

text \<open>
  The environment of one call of \<open>test_proxy\<close>: the answer to its \<open>i\<close>-th request
  (for a URL, through the proxy given by the record's ip and port, under a timeout),
  the clock reading formatted for \<open>test_time\<close>, and the order in which Python
  iterates over a set of strings built from a list (unspecified by the language).
\<close>

record env =
  requests_get :: "nat \<Rightarrow> string \<Rightarrow> pyval \<Rightarrow> pyval \<Rightarrow> int \<Rightarrow> response"
  now :: string
  set_order :: "string list \<Rightarrow> string list"

record proxy_validator =
  test_urls :: "string list"
  timeout :: int

definition DEFAULT_TIMEOUT :: int where
  "DEFAULT_TIMEOUT = 10"

definition default_test_urls :: "string list" where
  "default_test_urls =
     [''https://www.google.com'', ''https://www.cloudflare.com'', ''https://www.amazon.com'']"

text \<open>\<open>ProxyValidator.__init__\<close>: \<open>test_urls or [...]\<close> replaces both \<open>None\<close> and
  the empty list by the three default sites.\<close>

definition ProxyValidator_init :: "string list option \<Rightarrow> int \<Rightarrow> proxy_validator" where
  "ProxyValidator_init urls t =
     \<lparr> test_urls = (case urls of None \<Rightarrow> default_test_urls
                                | Some us \<Rightarrow> if us = [] then default_test_urls else us),
       timeout = t \<rparr>"

text \<open>The body of the loop of \<open>test_proxy\<close>, on the accumulators
  \<open>(results, total_time, success_count)\<close>. The \<open>except\<close> clauses are tried in the
  source's order; the last one, \<open>except Exception\<close>, takes every remaining class and
  records \<open>str(e)\<close>.\<close>

fun probe_step ::
  "string \<Rightarrow> response \<Rightarrow> test_detail list \<times> rat \<times> nat \<Rightarrow> test_detail list \<times> rat \<times> nat"
where
  "probe_step u (Response code elapsed) (results, total_time, success_count) =
     (if code = 200
      then (results @ [\<lparr> url = u, success = True,
                         response_time = PyFloat (py_round elapsed 2),
                         status_code = Some code, error = None \<rparr>],
            total_time + elapsed, success_count + 1)
      else (results @ [\<lparr> url = u, success = False, response_time = PyInt (- 1),
                         status_code = Some code,
                         error = Some (''HTTP '' @ py_str_int code) \<rparr>],
            total_time, success_count))"
| "probe_step u (Raises ProxyError msg) (results, total_time, success_count) =
     (results @ [\<lparr> url = u, success = False, response_time = PyInt (- 1),
                   status_code = None, error = Some ''Proxy Error'' \<rparr>],
      total_time, success_count)"
| "probe_step u (Raises ConnectTimeout msg) (results, total_time, success_count) =
     (results @ [\<lparr> url = u, success = False, response_time = PyInt (- 1),
                   status_code = None, error = Some ''Timeout'' \<rparr>],
      total_time, success_count)"
| "probe_step u (Raises SSLError msg) (results, total_time, success_count) =
     (results @ [\<lparr> url = u, success = False, response_time = PyInt (- 1),
                   status_code = None, error = Some ''SSL Error'' \<rparr>],
      total_time, success_count)"
| "probe_step u (Raises exc msg) (results, total_time, success_count) =
     (results @ [\<lparr> url = u, success = False, response_time = PyInt (- 1),
                   status_code = None, error = Some msg \<rparr>],
      total_time, success_count)"

text \<open>\<open>for url in self.test_urls\<close>: the requests are issued one after the other;
  \<open>i\<close> counts them.\<close>

fun probe_loop ::
  "env \<Rightarrow> int \<Rightarrow> pyval \<Rightarrow> pyval \<Rightarrow> nat \<Rightarrow> string list
     \<Rightarrow> test_detail list \<times> rat \<times> nat \<Rightarrow> test_detail list \<times> rat \<times> nat"
where
  "probe_loop e t ip port i [] acc = acc"
| "probe_loop e t ip port i (u # us) acc =
     probe_loop e t ip port (Suc i) us (probe_step u (requests_get e i u ip port t) acc)"

text \<open>The errors of the failed probes, in list order: \<open>[r['error'] for r in results
  if 'error' in r]\<close>.\<close>

fun errors_of :: "test_detail list \<Rightarrow> string list" where
  "errors_of [] = []"
| "errors_of (r # rs) =
     (case error r of None \<Rightarrow> errors_of rs | Some m \<Rightarrow> m # errors_of rs)"

text \<open>
  \<open>ProxyValidator.test_proxy\<close>. \<open>proxy['ip']\<close> and \<open>proxy['port']\<close> raise
  \<open>KeyError\<close> on a record without them, before any request is made; the division by
  \<open>len(self.test_urls)\<close> raises \<open>ZeroDivisionError\<close> on an empty URL list, after the
  (empty) loop. The result is \<open>{**proxy, ...}\<close>: the input record with seven keys
  written over it.
\<close>

definition test_proxy :: "proxy_validator \<Rightarrow> env \<Rightarrow> pydict \<Rightarrow> error + pydict" where
  "test_proxy v e proxy =
     (case proxy ''ip'' of
        None \<Rightarrow> Inl (KeyError ''ip'')
      | Some ip \<Rightarrow>
     (case proxy ''port'' of
        None \<Rightarrow> Inl (KeyError ''port'')
      | Some port \<Rightarrow>
     (case probe_loop e (timeout v) ip port 0 (test_urls v) ([], 0, 0) of
        (results, total_time, success_count) \<Rightarrow>
          let avg_time =
                (if success_count > 0
                 then PyFloat (py_round (total_time / of_nat (max 1 success_count)) 2)
                 else PyInt (- 1))
          in if length (test_urls v) = 0 then Inl ZeroDivisionError
             else
               let success_rate =
                     py_round (of_nat success_count / of_nat (length (test_urls v)) * 100) 1
               in Inr (proxy
                    (''test_details'' \<mapsto> PyDetails results,
                     ''success'' \<mapsto> PyBool (success_rate \<ge> 666 / 10),
                     ''success_rate'' \<mapsto> PyNum (PyFloat success_rate),
                     ''response_time'' \<mapsto> PyNum avg_time,
                     ''test_time'' \<mapsto> PyStr (now e),
                     ''status'' \<mapsto> PyStr (if success_rate \<ge> 666 / 10 then ''active''
                                            else if success_rate > 0 then ''unreliable''
                                            else ''dead''),
                     ''error'' \<mapsto> PyStr (join '', '' (set_order e (errors_of results))))))))"

text \<open>
  The record that \<open>SSLProxiesProvider.fetch_proxies\<close> builds for one table row:
  the candidate endpoints that reach the validator have these fourteen keys.
\<close>

definition make_proxy ::
  "string \<Rightarrow> string \<Rightarrow> string \<Rightarrow> string \<Rightarrow> string \<Rightarrow> string \<Rightarrow> string \<Rightarrow> string
     \<Rightarrow> string \<Rightarrow> pydict"
where
  "make_proxy ip port code country anonymity google https last_checked source =
     [''ip'' \<mapsto> PyStr ip, ''port'' \<mapsto> PyStr port, ''code'' \<mapsto> PyStr code,
      ''country'' \<mapsto> PyStr country, ''anonymity'' \<mapsto> PyStr anonymity,
      ''google'' \<mapsto> PyStr google, ''https'' \<mapsto> PyStr https,
      ''last_checked'' \<mapsto> PyStr last_checked, ''source'' \<mapsto> PyStr source,
      ''success'' \<mapsto> PyBool False, ''response_time'' \<mapsto> PyNum (PyInt (- 1)),
      ''test_time'' \<mapsto> PyStr [], ''status'' \<mapsto> PyStr ''untested'',
      ''error'' \<mapsto> PyStr []]"

section \<open>ProxyMaster\<close>

text \<open>
  The fields of \<open>ProxyMaster\<close> that testing and selection read or write.
  \<open>saved\<close> is the last snapshot handed to \<open>json.dump\<close> by \<open>save_results\<close>
  (the file name and the metadata come from the clock and the platform and are left
  out, as are failures of the file system); \<open>printed\<close> is what has been printed, one entry per \<open>print\<close> whose text
  depends on the data.
\<close>

datatype mark = Check | Warning | Cross

datatype line =
    NoProxiesToTest
  | TestingProxies
  | Tested mark pyval pyval pyval pyval
  | ErrorTesting pyval pyval error
  | ResultsSaved
  | NoActiveProxies
  | BestProxy pyval pyval pyval pyval

record snapshot =
  snap_proxies :: "pydict list"
  snap_active :: "pydict list"
  snap_current :: "pydict option"

record proxy_master =
  validator :: proxy_validator
  proxy_data :: "pydict list"
  active_proxies :: "pydict list"
  current_proxy :: "pydict option"
  saved :: "snapshot option"
  printed :: "line list"

text \<open>The \<open>except Exception as e\<close> handler of \<open>test_proxies\<close>: its message reads
  \<open>proxy['ip']\<close> and \<open>proxy['port']\<close>, so on a record without them the handler
  itself raises \<open>KeyError\<close>, which leaves \<open>test_proxies\<close>.\<close>

definition report_error :: "pydict \<Rightarrow> error \<Rightarrow> proxy_master \<Rightarrow> error + proxy_master" where
  "report_error proxy e m =
     (case proxy ''ip'' of
        None \<Rightarrow> Inl (KeyError ''ip'')
      | Some ip \<Rightarrow>
     (case proxy ''port'' of
        None \<Rightarrow> Inl (KeyError ''port'')
      | Some port \<Rightarrow> Inr (m\<lparr>printed := printed m @ [ErrorTesting ip port e]\<rparr>)))"

text \<open>\<open>"ok" if result['success'] else "warn" if result['success_rate'] > 0 else "fail"\<close>,
  given the value of \<open>result['success']\<close>.\<close>

definition status_mark :: "pydict \<Rightarrow> pyval \<Rightarrow> error + mark" where
  "status_mark result s =
     (if truthy s then Inr Check
      else (case getitem result ''success_rate'' of
              Inl e \<Rightarrow> Inl e
            | Inr sr \<Rightarrow>
           (case number_of sr of
              Inl e \<Rightarrow> Inl e
            | Inr q \<Rightarrow> Inr (if q > 0 then Warning else Cross))))"

text \<open>The body of the \<open>try\<close> after \<open>future.result()\<close> has returned \<open>result\<close>.
  Every exception in it goes to the handler; an append that has happened stays.\<close>

definition handle_result :: "pydict \<Rightarrow> pydict \<Rightarrow> proxy_master \<Rightarrow> error + proxy_master" where
  "handle_result proxy result m =
     (case result ''success'' of
        None \<Rightarrow> report_error proxy (KeyError ''success'') m
      | Some s \<Rightarrow>
          let m1 = (if truthy s then m\<lparr>active_proxies := active_proxies m @ [result]\<rparr> else m)
          in (case status_mark result s of
                Inl e \<Rightarrow> report_error proxy e m1
              | Inr mk \<Rightarrow>
             (case proxy ''ip'' of
                None \<Rightarrow> report_error proxy (KeyError ''ip'') m1
              | Some ip \<Rightarrow>
             (case proxy ''port'' of
                None \<Rightarrow> report_error proxy (KeyError ''port'') m1
              | Some port \<Rightarrow>
             (case result ''status'' of
                None \<Rightarrow> report_error proxy (KeyError ''status'') m1
              | Some st \<Rightarrow>
             (case result ''success_rate'' of
                None \<Rightarrow> report_error proxy (KeyError ''success_rate'') m1
              | Some sr \<Rightarrow>
                  Inr (m1\<lparr>printed := printed m1 @ [Tested mk ip port st sr]\<rparr>)))))))"

text \<open>
  \<open>for future in as_completed(futures)\<close>. A task is a submitted call with its number
  and its record; \<open>run i proxy\<close> is what \<open>future.result()\<close> gives for task \<open>i\<close>:
  the returned record, or the exception the call raised. The tasks are taken in the
  order in which they complete.
\<close>

type_synonym task_result = "nat \<Rightarrow> pydict \<Rightarrow> error + pydict"

fun completed_loop ::
  "task_result \<Rightarrow> (nat \<times> pydict) list \<Rightarrow> proxy_master \<Rightarrow> error + proxy_master"
where
  "completed_loop run [] m = Inr m"
| "completed_loop run ((i, proxy) # tasks) m =
     (case (case run i proxy of
              Inl e \<Rightarrow> report_error proxy e m
            | Inr result \<Rightarrow> handle_result proxy result m) of
        Inl e \<Rightarrow> Inl e
      | Inr m' \<Rightarrow> completed_loop run tasks m')"

definition save_results :: "proxy_master \<Rightarrow> proxy_master" where
  "save_results m =
     m\<lparr>saved := Some \<lparr> snap_proxies = proxy_data m, snap_active = active_proxies m,
                          snap_current = current_proxy m \<rparr>,
       printed := printed m @ [ResultsSaved]\<rparr>"

text \<open>
  The key of the sort in \<open>select_best_proxy\<close>:
  \<open>(-x['success_rate'], x['response_time'])\<close>. Unary minus raises \<open>TypeError\<close> on
  a string or a list. A \<open>response_time\<close> that is not a number is reported as
  \<open>TypeError\<close> as well (Python would still order two strings); the providers and
  \<open>test_proxy\<close> write numbers only.
\<close>

definition sort_key_of :: "pydict \<Rightarrow> error + rat \<times> rat" where
  "sort_key_of x =
     (case getitem x ''success_rate'' of
        Inl e \<Rightarrow> Inl e
      | Inr sr \<Rightarrow>
     (case number_of sr of
        Inl e \<Rightarrow> Inl e
      | Inr r \<Rightarrow>
     (case getitem x ''response_time'' of
        Inl e \<Rightarrow> Inl e
      | Inr rt \<Rightarrow>
     (case number_of rt of
        Inl e \<Rightarrow> Inl e
      | Inr t \<Rightarrow> Inr (- r, t)))))"

fun keys_of :: "pydict list \<Rightarrow> error + (rat \<times> rat) list" where
  "keys_of [] = Inr []"
| "keys_of (x # xs) =
     (case sort_key_of x of
        Inl e \<Rightarrow> Inl e
      | Inr k \<Rightarrow>
     (case keys_of xs of
        Inl e \<Rightarrow> Inl e
      | Inr ks \<Rightarrow> Inr (k # ks)))"

text \<open>
  \<open>ProxyMaster.select_best_proxy\<close>. \<open>list.sort(key=...)\<close> computes the key of every
  element, then sorts by the keys, ascending and stable; pairs are ordered
  lexicographically. \<open>sort_key\<close> is the stable sort of the HOL library. The print
  after the assignment reads the ip and the port of the selected record.
\<close>

definition select_best_proxy :: "proxy_master \<Rightarrow> error + proxy_master" where
  "select_best_proxy m =
     (if active_proxies m = [] then Inr (m\<lparr>printed := printed m @ [NoActiveProxies]\<rparr>)
      else
        (case keys_of (active_proxies m) of
           Inl e \<Rightarrow> Inl e
         | Inr ks \<Rightarrow>
        (case map snd (sort_key fst (zip ks (active_proxies m))) of
           [] \<Rightarrow> Inl IndexError
         | best # rest \<Rightarrow>
        (case getitem best ''ip'' of
           Inl e \<Rightarrow> Inl e
         | Inr ip \<Rightarrow>
        (case getitem best ''port'' of
           Inl e \<Rightarrow> Inl e
         | Inr port \<Rightarrow>
        (case getitem best ''response_time'' of
           Inl e \<Rightarrow> Inl e
         | Inr rt \<Rightarrow>
        (case getitem best ''success_rate'' of
           Inl e \<Rightarrow> Inl e
         | Inr sr \<Rightarrow>
             Inr (m\<lparr>active_proxies := best # rest, current_proxy := Some best,
                    printed := printed m @ [BestProxy ip port rt sr]\<rparr>))))))))"

text \<open>
  \<open>ProxyMaster.test_proxies\<close>, for any behaviour \<open>run\<close> of the submitted calls and
  any completion order \<open>as_completed\<close> of the futures. Each future is consumed whole,
  one after the other, as the loop of the main thread sees them.
\<close>

definition test_proxies_with ::
  "task_result \<Rightarrow> ((nat \<times> pydict) list \<Rightarrow> (nat \<times> pydict) list) \<Rightarrow> proxy_master
     \<Rightarrow> error + proxy_master"
where
  "test_proxies_with run as_completed m =
     (if proxy_data m = [] then Inr (m\<lparr>printed := printed m @ [NoProxiesToTest]\<rparr>)
      else
        let m0 = m\<lparr>active_proxies := [], printed := printed m @ [TestingProxies]\<rparr>;
            futures = enumerate 0 (proxy_data m0)
        in (case completed_loop run (as_completed futures) m0 of
              Inl e \<Rightarrow> Inl e
            | Inr m1 \<Rightarrow> select_best_proxy (save_results m1)))"

text \<open>The submitted call is \<open>self.validator.test_proxy\<close>; \<open>world i\<close> is the
  environment in which call \<open>i\<close> runs.\<close>

definition test_proxies ::
  "(nat \<Rightarrow> env) \<Rightarrow> ((nat \<times> pydict) list \<Rightarrow> (nat \<times> pydict) list) \<Rightarrow> proxy_master
     \<Rightarrow> error + proxy_master"
where
  "test_proxies world as_completed m =
     test_proxies_with (\<lambda>i. test_proxy (validator m) (world i)) as_completed m"

section \<open>Notions used to state the properties\<close>

text \<open>The entry that the loop body of \<open>test_proxy\<close> appends for a URL and the answer
  to its request.\<close>

definition detail_of :: "string \<Rightarrow> response \<Rightarrow> test_detail" where
  "detail_of u r = hd (fst (probe_step u r ([], 0, 0)))"

text \<open>The elapsed time of a successful probe (none for a failed one).\<close>

fun ok_elapsed :: "response \<Rightarrow> rat list" where
  "ok_elapsed (Response code elapsed) = (if code = 200 then [elapsed] else [])"
| "ok_elapsed (Raises exc msg) = []"

text \<open>The answers to the requests that \<open>test_proxy\<close> issues for a URL list, in order.\<close>

fun responses ::
  "env \<Rightarrow> int \<Rightarrow> pyval \<Rightarrow> pyval \<Rightarrow> nat \<Rightarrow> string list \<Rightarrow> response list" where
  "responses e t ip port i [] = []"
| "responses e t ip port i (u # us) =
     requests_get e i u ip port t # responses e t ip port (Suc i) us"

definition successful_elapsed :: "proxy_validator \<Rightarrow> env \<Rightarrow> pyval \<Rightarrow> pyval \<Rightarrow> rat list" where
  "successful_elapsed v e ip port =
     concat (map ok_elapsed (responses e (timeout v) ip port 0 (test_urls v)))"


text \<open>The keys that \<open>test_proxy\<close> writes.\<close>

definition result_keys :: "string list" where
  "result_keys = [''test_details'', ''success'', ''success_rate'', ''response_time'',
                  ''test_time'', ''status'', ''error'']"

text \<open>The record \<open>test_proxy\<close> returns, from the entries \<open>ds\<close>, the elapsed times
  \<open>oks\<close> of the successful probes and the number \<open>n\<close> of URLs.\<close>

definition scored :: "pydict \<Rightarrow> env \<Rightarrow> test_detail list \<Rightarrow> rat list \<Rightarrow> nat \<Rightarrow> pydict" where
  "scored proxy e ds oks n =
     (let rate = py_round (of_nat (length oks) / of_nat n * 100) 1
      in proxy
           (''test_details'' \<mapsto> PyDetails ds,
            ''success'' \<mapsto> PyBool (rate \<ge> 666 / 10),
            ''success_rate'' \<mapsto> PyNum (PyFloat rate),
            ''response_time'' \<mapsto> PyNum (if oks = [] then PyInt (- 1)
                 else PyFloat (py_round (sum_list oks / of_nat (length oks)) 2)),
            ''test_time'' \<mapsto> PyStr (now e),
            ''status'' \<mapsto> PyStr (if rate \<ge> 666 / 10 then ''active''
                                   else if rate > 0 then ''unreliable'' else ''dead''),
            ''error'' \<mapsto> PyStr (join '', '' (set_order e (errors_of ds)))))"


subsection \<open>Concrete inputs\<close>

text \<open>An environment that answers the \<open>i\<close>-th request with the \<open>i\<close>-th entry of a
  script.\<close>

definition scripted_env :: "response list \<Rightarrow> env" where
  "scripted_env script =
     \<lparr> requests_get = (\<lambda>i u ip port t.
          if i < length script then script ! i else Raises OtherException ''no answer''),
       now = ''2025-05-09 12:00:00'',
       set_order = remdups \<rparr>"

definition proxy_E :: pydict where
  "proxy_E = make_proxy ''10.0.0.1'' ''8080'' ''DE'' ''Germany'' ''elite proxy'' ''no'' ''yes''
               ''1 minute ago'' ''www.sslproxies.org''"

definition validator_0 :: proxy_validator where
  "validator_0 = ProxyValidator_init None DEFAULT_TIMEOUT"

text \<open>The four endpoints of the scenario of the specification: all three probes
  succeed; two of three; one of three; none.\<close>

definition env_E1 :: env where
  "env_E1 = scripted_env [Response 200 (1 / 10), Response 200 (1 / 5), Response 200 (3 / 10)]"

definition env_E2 :: env where
  "env_E2 = scripted_env [Response 200 (1 / 10), Response 503 (1 / 5), Response 200 (3 / 10)]"

definition env_E3 :: env where
  "env_E3 = scripted_env [Raises ProxyError ''Cannot connect to proxy.'', Response 200 (1 / 3),
                          Raises ReadTimeout ''Read timed out. (read timeout=10)'']"

definition env_E4 :: env where
  "env_E4 = scripted_env [Raises ProxyError ''Cannot connect to proxy.'',
                          Raises ConnectTimeout ''Connection to 10.0.0.1 timed out.'',
                          Raises SSLError ''certificate verify failed'']"

subsection \<open>Notions for testing and selection\<close>

text \<open>A candidate record with an address.\<close>

definition has_address :: "pydict \<Rightarrow> bool" where
  "has_address p = (p ''ip'' \<noteq> None \<and> p ''port'' \<noteq> None)"

fun is_bool :: "pyval option \<Rightarrow> bool" where
  "is_bool (Some (PyBool b)) = True"
| "is_bool v = False"

fun is_num :: "pyval option \<Rightarrow> bool" where
  "is_num (Some (PyNum n)) = True"
| "is_num v = False"

text \<open>A scored record as \<open>test_proxy\<close> returns it: an address, a boolean flag, a
  numeric rate and latency, a status.\<close>

definition well_scored :: "pydict \<Rightarrow> bool" where
  "well_scored r =
     (has_address r \<and> is_bool (r ''success'') \<and> is_num (r ''success_rate'')
      \<and> is_num (r ''response_time'') \<and> r ''status'' \<noteq> None)"

text \<open>\<open>if result['success']\<close>\<close>

definition accepted :: "pydict \<Rightarrow> bool" where
  "accepted r = (case r ''success'' of None \<Rightarrow> False | Some s \<Rightarrow> truthy s)"

definition is_active :: "pydict \<Rightarrow> bool" where
  "is_active r = (r ''status'' = Some (PyStr ''active''))"

text \<open>The records returned by the calls that did not raise, in the order of the
  tasks.\<close>

definition scored_results :: "task_result \<Rightarrow> (nat \<times> pydict) list \<Rightarrow> pydict list" where
  "scored_results run tasks =
     List.map_filter (\<lambda>(i, p). case run i p of Inl e \<Rightarrow> None | Inr r \<Rightarrow> Some r) tasks"

text \<open>The two components of the selection key, as numbers.\<close>

definition rate_of :: "pydict \<Rightarrow> rat" where
  "rate_of x = (case x ''success_rate'' of
                  Some (PyNum n) \<Rightarrow> num_val n
                | Some (PyBool b) \<Rightarrow> (if b then 1 else 0)
                | _ \<Rightarrow> 0)"

definition latency_of :: "pydict \<Rightarrow> rat" where
  "latency_of x = (case x ''response_time'' of
                     Some (PyNum n) \<Rightarrow> num_val n
                   | Some (PyBool b) \<Rightarrow> (if b then 1 else 0)
                   | _ \<Rightarrow> 0)"

definition selection_key :: "pydict \<Rightarrow> rat \<times> rat" where
  "selection_key x = (- rate_of x, latency_of x)"

text \<open>Every task has its line among \<open>ls\<close>: the error line when its call raised, the
  result line with the mark, the status and the rate of its result when it returned.\<close>

definition task_reported :: "task_result \<Rightarrow> line list \<Rightarrow> nat \<times> pydict \<Rightarrow> bool" where
  "task_reported run ls task =
     (case task of (i, p) \<Rightarrow>
        case p ''ip'' of
          None \<Rightarrow> False
        | Some a \<Rightarrow>
       (case p ''port'' of
          None \<Rightarrow> False
        | Some b \<Rightarrow>
       (case run i p of
          Inl e \<Rightarrow> ErrorTesting a b e \<in> set ls
        | Inr r \<Rightarrow>
       (case r ''status'' of
          None \<Rightarrow> False
        | Some st \<Rightarrow>
       (case r ''success_rate'' of
          None \<Rightarrow> False
        | Some sr \<Rightarrow>
            Tested (if accepted r then Check else if 0 < rate_of r then Warning else Cross)
              a b st sr \<in> set ls)))))"

definition reported :: "task_result \<Rightarrow> (nat \<times> pydict) list \<Rightarrow> line list \<Rightarrow> bool" where
  "reported run tasks ls = list_all (task_reported run ls) tasks"

text \<open>Everything a cycle leaves on record: the candidate list, the active set, the
  selected endpoint and the saved snapshot.\<close>

fun option_list :: "'a option \<Rightarrow> 'a list" where
  "option_list None = []"
| "option_list (Some x) = [x]"

definition recorded :: "proxy_master \<Rightarrow> pydict list" where
  "recorded m =
     proxy_data m @ active_proxies m @ option_list (current_proxy m)
     @ (case saved m of
          None \<Rightarrow> []
        | Some s \<Rightarrow> snap_proxies s @ snap_active s @ option_list (snap_current s))"

fun recorded_after :: "error + proxy_master \<Rightarrow> pydict list" where
  "recorded_after (Inl e) = []"
| "recorded_after (Inr m) = recorded m"

definition statuses :: "pydict list \<Rightarrow> pyval option list" where
  "statuses rs = map (\<lambda>r. r ''status'') rs"

fun raised :: "error + proxy_master \<Rightarrow> error option" where
  "raised (Inl e) = Some e"
| "raised (Inr m) = None"

text \<open>A second candidate, and a master that holds both.\<close>

definition proxy_F :: pydict where
  "proxy_F = make_proxy ''10.0.0.2'' ''3128'' ''FR'' ''France'' ''anonymous'' ''no'' ''yes''
               ''2 minutes ago'' ''free-proxy-list.net''"

definition master_0 :: proxy_master where
  "master_0 = \<lparr> validator = validator_0, proxy_data = [proxy_E, proxy_F],
                active_proxies = [], current_proxy = None, saved = None, printed = [] \<rparr>"

text \<open>The calls of a cycle in which the call for the second candidate raises an
  unexpected exception and the first one runs \<open>test_proxy\<close> with all probes
  succeeding.\<close>

definition faulty_run :: task_result where
  "faulty_run i p =
     (if i = 1 then Inl (Fault ''unexpected'') else test_proxy validator_0 env_E1 p)"

text \<open>Scored records with a given address, rate and latency, and a master whose active
  set holds four of them: one at 66.7 percent, three at 100 percent of which two have
  the same latency.\<close>

definition active_record :: "string \<Rightarrow> rat \<Rightarrow> rat \<Rightarrow> pydict" where
  "active_record ip rate latency =
     [''ip'' \<mapsto> PyStr ip, ''port'' \<mapsto> PyStr ''8080'', ''success'' \<mapsto> PyBool True,
      ''success_rate'' \<mapsto> PyNum (PyFloat rate), ''response_time'' \<mapsto> PyNum (PyFloat latency),
      ''status'' \<mapsto> PyStr ''active'']"

definition master_1 :: proxy_master where
  "master_1 = \<lparr> validator = validator_0, proxy_data = [],
                active_proxies = [active_record ''10.0.0.1'' (667 / 10) (1 / 2),
                                  active_record ''10.0.0.2'' 100 (3 / 10),
                                  active_record ''10.0.0.3'' 100 (1 / 5),
                                  active_record ''10.0.0.4'' 100 (1 / 5)],
                current_proxy = None, saved = None, printed = [] \<rparr>"

definition ips :: "pydict list \<Rightarrow> pyval option list" where
  "ips rs = map (\<lambda>r. r ''ip'') rs"



text \<open>A cycle in which the first candidate answers all probes and the second none.\<close>

definition world_0 :: "nat \<Rightarrow> env" where
  "world_0 i = (if i = 0 then env_E1 else env_E4)"


section \<open>The probing loop\<close>

lemma round_half_even_bounds:
  "of_int (round_half_even q) \<le> q + 1 / 2 \<and> q - 1 / 2 \<le> of_int (round_half_even q)"
  unfolding round_half_even_def Let_def
  by (auto simp: not_less) linarith+

lemma round_half_even_range:
  assumes "0 \<le> q" "q \<le> of_int N"
  shows "0 \<le> round_half_even q \<and> round_half_even q \<le> N"
proof -
  from round_half_even_bounds [of q] assms
  have "(of_int (round_half_even q) :: rat) \<le> of_int N + 1 / 2"
    and "- (1 / 2) \<le> (of_int (round_half_even q) :: rat)" by auto
  then have "(of_int (round_half_even q) :: rat) < of_int (N + 1)"
    and "(of_int (- 1) :: rat) < of_int (round_half_even q)" by auto
  then have "round_half_even q < N + 1" and "- 1 < round_half_even q"
    unfolding of_int_less_iff by blast+
  then show ?thesis by auto
qed

lemma py_round_percent_range:
  assumes "0 \<le> q" "q \<le> 100"
  shows "0 \<le> py_round q 1 \<and> py_round q 1 \<le> 100"
proof -
  have "0 \<le> q * 10" "q * 10 \<le> of_int 1000" using assms by auto
  from round_half_even_range [OF this]
  have "0 \<le> round_half_even (q * 10)" "round_half_even (q * 10) \<le> 1000" by auto
  then have "(0::rat) \<le> of_int (round_half_even (q * 10))"
    "(of_int (round_half_even (q * 10)) :: rat) \<le> 1000" by (simp, linarith)
  then show ?thesis by (simp add: py_round_def)
qed

lemma probe_step_eq:
  "probe_step u r (rs, tot, c) =
     (rs @ [detail_of u r], tot + sum_list (ok_elapsed r), c + length (ok_elapsed r))"
  by (cases "(u, r, (rs, tot, c))" rule: probe_step.cases) (auto simp: detail_of_def)

lemma detail_of_url [simp]: "url (detail_of u r) = u"
  by (cases "(u, r, ([]::test_detail list, 0::rat, 0::nat))" rule: probe_step.cases)
     (auto simp: detail_of_def)


lemma probe_loop_eq:
  "probe_loop e t ip port i us (rs, tot, c) =
     (rs @ map2 detail_of us (responses e t ip port i us),
      tot + sum_list (concat (map ok_elapsed (responses e t ip port i us))),
      c + length (concat (map ok_elapsed (responses e t ip port i us))))"
  by (induction us arbitrary: i rs tot c) (simp_all add: probe_step_eq)

lemma length_responses [simp]: "length (responses e t ip port i us) = length us"
  by (induction us arbitrary: i) simp_all

lemma nth_responses:
  "k < length us \<Longrightarrow> responses e t ip port i us ! k = requests_get e (i + k) (us ! k) ip port t"
proof (induction us arbitrary: i k)
  case Nil
  then show ?case by simp
next
  case (Cons u us)
  then show ?case by (cases k) simp_all
qed


lemma length_ok_elapsed_le: "length (concat (map ok_elapsed rs)) \<le> length rs"
proof (induction rs)
  case Nil
  then show ?case by simp
next
  case (Cons r rs)
  then show ?case by (cases r) auto
qed

section \<open>The result of test_proxy\<close>

lemma test_proxy_eq:
  assumes "proxy ''ip'' = Some ip" "proxy ''port'' = Some port" "test_urls v \<noteq> []"
  shows "test_proxy v e proxy =
     Inr (scored proxy e
            (map2 detail_of (test_urls v) (responses e (timeout v) ip port 0 (test_urls v)))
            (successful_elapsed v e ip port)
            (length (test_urls v)))"
proof -
  define oks where "oks = successful_elapsed v e ip port"
  define ds where
    "ds = map2 detail_of (test_urls v) (responses e (timeout v) ip port 0 (test_urls v))"
  have loop: "probe_loop e (timeout v) ip port 0 (test_urls v) ([], 0, 0)
                = (ds, sum_list oks, length oks)"
    by (simp add: probe_loop_eq ds_def oks_def successful_elapsed_def)
  have "test_proxy v e proxy = Inr (scored proxy e ds oks (length (test_urls v)))"
  proof (cases "oks = []")
    case True
    then show ?thesis
      by (simp add: test_proxy_def scored_def loop assms Let_def)
  next
    case False
    then show ?thesis
      by (simp add: test_proxy_def scored_def loop assms Let_def max_def Suc_le_eq)
  qed
  then show ?thesis by (simp add: ds_def oks_def)
qed

lemma test_proxy_Inr:
  assumes "test_proxy v e proxy = Inr r"
  shows "\<exists>ip port. proxy ''ip'' = Some ip \<and> proxy ''port'' = Some port \<and> test_urls v \<noteq> [] \<and>
     r = scored proxy e
            (map2 detail_of (test_urls v) (responses e (timeout v) ip port 0 (test_urls v)))
            (successful_elapsed v e ip port)
            (length (test_urls v))"
proof -
  obtain ip port where ip: "proxy ''ip'' = Some ip" "proxy ''port'' = Some port"
    using assms by (auto simp: test_proxy_def split: option.splits)
  have ne: "test_urls v \<noteq> []"
    using assms ip by (auto simp: test_proxy_def Let_def split: prod.splits if_splits)
  from test_proxy_eq [OF ip ne, of e] assms show ?thesis using ip ne by auto
qed

lemma test_proxy_no_ip: "proxy ''ip'' = None \<Longrightarrow> test_proxy v e proxy = Inl (KeyError ''ip'')"
  by (simp add: test_proxy_def)

lemma test_proxy_no_port:
  "proxy ''ip'' = Some ip \<Longrightarrow> proxy ''port'' = None
     \<Longrightarrow> test_proxy v e proxy = Inl (KeyError ''port'')"
  by (simp add: test_proxy_def)

lemma test_proxy_empty_urls:
  "proxy ''ip'' = Some ip \<Longrightarrow> proxy ''port'' = Some port \<Longrightarrow> test_urls v = []
     \<Longrightarrow> test_proxy v e proxy = Inl ZeroDivisionError"
  by (simp add: test_proxy_def)

lemma ProxyValidator_init_nonempty: "test_urls (ProxyValidator_init urls t) \<noteq> []"
  by (simp add: ProxyValidator_init_def default_test_urls_def split: option.splits)

lemma scored_fields:
  "scored proxy e ds oks n ''test_details'' = Some (PyDetails ds)"
  "scored proxy e ds oks n ''success_rate'' =
     Some (PyNum (PyFloat (py_round (of_nat (length oks) / of_nat n * 100) 1)))"
  "scored proxy e ds oks n ''success'' =
     Some (PyBool (py_round (of_nat (length oks) / of_nat n * 100) 1 \<ge> 666 / 10))"
  "scored proxy e ds oks n ''status'' =
     Some (PyStr (if py_round (of_nat (length oks) / of_nat n * 100) 1 \<ge> 666 / 10 then ''active''
                  else if py_round (of_nat (length oks) / of_nat n * 100) 1 > 0 then ''unreliable''
                  else ''dead''))"
  "scored proxy e ds oks n ''response_time'' =
     Some (PyNum (if oks = [] then PyInt (- 1)
                  else PyFloat (py_round (sum_list oks / of_nat (length oks)) 2)))"
  "scored proxy e ds oks n ''test_time'' = Some (PyStr (now e))"
  "scored proxy e ds oks n ''error'' = Some (PyStr (join '', '' (set_order e (errors_of ds))))"
  by (simp_all add: scored_def Let_def)

lemma scored_frame: "k \<notin> set result_keys \<Longrightarrow> scored proxy e ds oks n k = proxy k"
  by (simp add: scored_def result_keys_def Let_def)

lemma success_rate_range:
  assumes "length oks \<le> n" "0 < n"
  shows "0 \<le> py_round (of_nat (length oks) / of_nat n * 100) 1
       \<and> py_round (of_nat (length oks) / of_nat n * 100) 1 \<le> 100"
proof (rule py_round_percent_range)
  show "(0::rat) \<le> of_nat (length oks) / of_nat n * 100" by simp
  have "(of_nat (length oks) :: rat) \<le> of_nat n" using assms by simp
  then have "(of_nat (length oks) :: rat) / of_nat n \<le> 1" using assms by (simp add: divide_le_eq)
  then have "(of_nat (length oks) :: rat) / of_nat n * 100 \<le> 1 * 100"
    by (rule mult_right_mono) simp
  then show "(of_nat (length oks) :: rat) / of_nat n * 100 \<le> 100" by simp
qed

lemma proxy_E_ip_port:
  "proxy_E ''ip'' = Some (PyStr ''10.0.0.1'')" "proxy_E ''port'' = Some (PyStr ''8080'')"
  by (simp_all add: proxy_E_def make_proxy_def)

lemma validator_0_urls: "test_urls validator_0 = default_test_urls"
  by (simp add: validator_0_def ProxyValidator_init_def)

lemma validator_0_timeout: "timeout validator_0 = 10"
  by (simp add: validator_0_def ProxyValidator_init_def DEFAULT_TIMEOUT_def)

lemma test_proxy_validator_0:
  assumes "p ''ip'' = Some ip" "p ''port'' = Some port"
  shows "test_proxy validator_0 e p =
     Inr (scored p e
            (map2 detail_of default_test_urls (responses e 10 ip port 0 default_test_urls))
            (successful_elapsed validator_0 e ip port) 3)"
proof -
  have "length default_test_urls = 3" "default_test_urls \<noteq> []"
    by (simp_all add: default_test_urls_def)
  with test_proxy_eq [OF assms, of validator_0 e] show ?thesis
    by (simp add: validator_0_urls validator_0_timeout)
qed

lemma test_proxy_E:
  "test_proxy validator_0 e proxy_E =
     Inr (scored proxy_E e
            (map2 detail_of default_test_urls
               (responses e 10 (PyStr ''10.0.0.1'') (PyStr ''8080'') 0 default_test_urls))
            (successful_elapsed validator_0 e (PyStr ''10.0.0.1'') (PyStr ''8080'')) 3)"
  by (rule test_proxy_validator_0 [OF proxy_E_ip_port])

lemma successful_elapsed_E:
  "successful_elapsed validator_0 env_E1 ip port = [1 / 10, 1 / 5, 3 / 10]"
  "successful_elapsed validator_0 env_E2 ip port = [1 / 10, 3 / 10]"
  "successful_elapsed validator_0 env_E3 ip port = [1 / 3]"
  "successful_elapsed validator_0 env_E4 ip port = []"
  by (simp_all add: successful_elapsed_def validator_0_urls validator_0_timeout
        default_test_urls_def env_E1_def env_E2_def env_E3_def env_E4_def scripted_env_def)

lemma py_round_values:
  "py_round 100 1 = 100" "py_round (200 / 3) 1 = 667 / 10" "py_round (100 / 3) 1 = 333 / 10"
  "py_round 0 1 = 0" "py_round (1 / 5) 2 = 1 / 5" "py_round (1 / 3) 2 = 33 / 100"
  by code_simp+

lemma py_round_percent_values:
  "py_round 100 (Suc 0) = 100" "py_round (200 / 3) (Suc 0) = 667 / 10"
  "py_round (100 / 3) (Suc 0) = 333 / 10" "py_round 0 (Suc 0) = 0"
  using py_round_values by simp_all

section \<open>Status classification\<close>

text \<open>
  Claim C1. In every record that \<open>test_proxy\<close> returns, the status is determined by the
  recorded success ratio (the \<open>success_rate\<close> field is that ratio in percent): the status
  is \<open>active\<close> exactly when the ratio is at least 0.666, \<open>unreliable\<close> exactly when
  it lies strictly between 0 and 0.666, and \<open>dead\<close> exactly when it is 0.
\<close>

theorem status_function_of_success_ratio:
  assumes "test_proxy v e proxy = Inr r"
  shows "\<exists>rate. r ''success_rate'' = Some (PyNum (PyFloat rate)) \<and> 0 \<le> rate / 100 \<and>
     (r ''status'' = Some (PyStr ''active'') \<longleftrightarrow> 666 / 1000 \<le> rate / 100) \<and>
     (r ''status'' = Some (PyStr ''unreliable'')
        \<longleftrightarrow> 0 < rate / 100 \<and> rate / 100 < 666 / 1000) \<and>
     (r ''status'' = Some (PyStr ''dead'') \<longleftrightarrow> rate / 100 = 0)"
proof -
  from test_proxy_Inr [OF assms] obtain ip port where
    ne: "test_urls v \<noteq> []" and
    r: "r = scored proxy e
            (map2 detail_of (test_urls v) (responses e (timeout v) ip port 0 (test_urls v)))
            (successful_elapsed v e ip port) (length (test_urls v))"
    by blast
  define rate where
    "rate = py_round (of_nat (length (successful_elapsed v e ip port))
                        / of_nat (length (test_urls v)) * 100) 1"
  have "length (successful_elapsed v e ip port) \<le> length (test_urls v)"
    using length_ok_elapsed_le [of "responses e (timeout v) ip port 0 (test_urls v)"]
    by (simp add: successful_elapsed_def)
  from success_rate_range [OF this] ne have nonneg: "0 \<le> rate" by (simp add: rate_def)
  have sr: "r ''success_rate'' = Some (PyNum (PyFloat rate))"
    by (simp add: r scored_fields rate_def)
  have st: "r ''status'' = Some (PyStr (if rate \<ge> 666 / 10 then ''active''
                  else if rate > 0 then ''unreliable'' else ''dead''))"
    by (simp add: r scored_fields rate_def)
  have "r ''status'' = Some (PyStr ''active'') \<longleftrightarrow> 666 / 1000 \<le> rate / 100"
    unfolding st by simp
  moreover have "r ''status'' = Some (PyStr ''unreliable'')
                   \<longleftrightarrow> 0 < rate / 100 \<and> rate / 100 < 666 / 1000"
    unfolding st by auto
  moreover have "r ''status'' = Some (PyStr ''dead'') \<longleftrightarrow> rate / 100 = 0"
    unfolding st using nonneg by auto
  ultimately show ?thesis using sr nonneg by auto
qed

theorem status_function_of_success_ratio_witness:
  "\<exists>r. test_proxy validator_0 env_E2 proxy_E = Inr r
      \<and> r ''success_rate'' = Some (PyNum (PyFloat (667 / 10)))
      \<and> r ''status'' = Some (PyStr ''active'')"
proof -
  define r where "r = scored proxy_E env_E2
            (map2 detail_of default_test_urls
               (responses env_E2 10 (PyStr ''10.0.0.1'') (PyStr ''8080'') 0 default_test_urls))
            (successful_elapsed validator_0 env_E2 (PyStr ''10.0.0.1'') (PyStr ''8080'')) 3"
  have h: "test_proxy validator_0 env_E2 proxy_E = Inr r"
    unfolding r_def by (rule test_proxy_E)
  have v: "r ''success_rate'' = Some (PyNum (PyFloat (667 / 10)))"
    by (simp add: r_def scored_fields successful_elapsed_E py_round_percent_values)
  from status_function_of_success_ratio [OF h] v
  have "r ''status'' = Some (PyStr ''active'')" by auto
  with h v show ?thesis by blast
qed

text \<open>The boundary is inclusive: three hundred and thirty-three successes of five
  hundred give the ratio 0.666 exactly, and the status \<open>active\<close>.\<close>

lemma scored_boundary:
  "scored proxy e ds (replicate 333 q) 500 ''status'' = Some (PyStr ''active'')"
  by (simp add: scored_fields py_round_def round_half_even_def Let_def)

text \<open>The ratio that decides is the recorded, rounded one: 663 successes of 996 are
  less than 0.666 of the probes, the recorded rate is 66.6 percent, and the status is
  \<open>active\<close>.\<close>

lemma scored_rounded_up_to_boundary:
  "scored proxy e ds (replicate 663 q) 996 ''status'' = Some (PyStr ''active'')"
  "(663 :: rat) / 996 < 666 / 1000"
proof -
  have "py_round (663 / 996 * 100) 1 = 666 / 10" by code_simp
  then show "scored proxy e ds (replicate 663 q) 996 ''status'' = Some (PyStr ''active'')"
    by (simp add: scored_fields)
  show "(663 :: rat) / 996 < 666 / 1000" by simp
qed

section \<open>Success ratio\<close>



section \<open>Classification of a probe\<close>

text \<open>What the loop body records for each kind of answer.\<close>

lemma detail_of_cases:
  "detail_of u (Response 200 el) =
     \<lparr> url = u, success = True, response_time = PyFloat (py_round el 2),
       status_code = Some 200, error = None \<rparr>"
  "code \<noteq> 200 \<Longrightarrow> detail_of u (Response code el) =
     \<lparr> url = u, success = False, response_time = PyInt (- 1),
       status_code = Some code, error = Some (''HTTP '' @ py_str_int code) \<rparr>"
  "detail_of u (Raises ProxyError msg) =
     \<lparr> url = u, success = False, response_time = PyInt (- 1),
       status_code = None, error = Some ''Proxy Error'' \<rparr>"
  "detail_of u (Raises ConnectTimeout msg) =
     \<lparr> url = u, success = False, response_time = PyInt (- 1),
       status_code = None, error = Some ''Timeout'' \<rparr>"
  "detail_of u (Raises SSLError msg) =
     \<lparr> url = u, success = False, response_time = PyInt (- 1),
       status_code = None, error = Some ''SSL Error'' \<rparr>"
  "detail_of u (Raises ReadTimeout msg) =
     \<lparr> url = u, success = False, response_time = PyInt (- 1),
       status_code = None, error = Some msg \<rparr>"
  "detail_of u (Raises OtherException msg) =
     \<lparr> url = u, success = False, response_time = PyInt (- 1),
       status_code = None, error = Some msg \<rparr>"
  by (simp_all add: detail_of_def)

lemma success_iff_status_200:
  "success (detail_of u r) \<longleftrightarrow> (\<exists>el. r = Response 200 el)"
  by (cases "(u, r, ([]::test_detail list, 0::rat, 0::nat))" rule: probe_step.cases)
     (auto simp: detail_of_def)

text \<open>
  Claim C5. A probe that gets no answer within the timeout window is to be classified
  \<open>timeout\<close>. The code does so for a timeout while connecting; when the connection
  is made and the server then sends nothing within the window (\<open>ReadTimeout\<close>), the
  entry carries the exception's message, as any other transport failure does.
\<close>

theorem read_timeout_recorded_as_other:
  "probe_step ''https://www.google.com''
     (Raises ConnectTimeout ''Connection to 10.0.0.1 timed out. (connect timeout=10)'') ([], 0, 0)
   = ([\<lparr> url = ''https://www.google.com'', success = False, response_time = PyInt (- 1),
          status_code = None, error = Some ''Timeout'' \<rparr>], 0, 0)
   \<and> probe_step ''https://www.google.com''
     (Raises ReadTimeout ''Read timed out. (read timeout=10)'') ([], 0, 0)
   = ([\<lparr> url = ''https://www.google.com'', success = False, response_time = PyInt (- 1),
          status_code = None, error = Some ''Read timed out. (read timeout=10)'' \<rparr>], 0, 0)"
  by simp

section \<open>Mean latency\<close>




section \<open>One entry per target URL\<close>

lemma test_proxy_details:
  assumes "proxy ''ip'' = Some ip" "proxy ''port'' = Some port" "test_urls v \<noteq> []"
  shows "\<exists>r ds. test_proxy v e proxy = Inr r
      \<and> r ''test_details'' = Some (PyDetails ds)
      \<and> map url ds = test_urls v
      \<and> (\<forall>i < length (test_urls v).
            ds ! i = detail_of (test_urls v ! i)
                       (requests_get e i (test_urls v ! i) ip port (timeout v)))"
proof -
  define ds where
    "ds = map2 detail_of (test_urls v) (responses e (timeout v) ip port 0 (test_urls v))"
  have "test_proxy v e proxy =
          Inr (scored proxy e ds (successful_elapsed v e ip port) (length (test_urls v)))"
    unfolding ds_def by (rule test_proxy_eq [OF assms])
  moreover have "scored proxy e ds (successful_elapsed v e ip port) (length (test_urls v))
                   ''test_details'' = Some (PyDetails ds)"
    by (simp add: scored_fields)
  moreover have "map url ds = test_urls v"
    unfolding ds_def by (rule nth_equalityI) simp_all
  moreover have "\<forall>i < length (test_urls v).
            ds ! i = detail_of (test_urls v ! i)
                       (requests_get e i (test_urls v ! i) ip port (timeout v))"
    by (simp add: ds_def nth_responses)
  ultimately show ?thesis by blast
qed

text \<open>
  Claim C7. For every candidate record (it carries an ip and a port) and every list of
  target URLs given to the validator, \<open>test_proxy\<close> returns a record whose
  \<open>test_details\<close> has exactly one entry per URL of the validator's list, in the order of
  the list: the \<open>i\<close>-th entry is the one recorded for the answer to the \<open>i\<close>-th
  request, which is made for the \<open>i\<close>-th URL.
\<close>

theorem one_outcome_per_target_url:
  assumes "proxy ''ip'' = Some ip" and "proxy ''port'' = Some port"
    and "v = ProxyValidator_init urls t"
  shows "\<exists>r ds. test_proxy v e proxy = Inr r
      \<and> r ''test_details'' = Some (PyDetails ds)
      \<and> length ds = length (test_urls v)
      \<and> map url ds = test_urls v
      \<and> (\<forall>i < length (test_urls v).
            ds ! i = detail_of (test_urls v ! i)
                       (requests_get e i (test_urls v ! i) ip port (timeout v)))"
proof -
  have "test_urls v \<noteq> []"
    unfolding assms(3) by (rule ProxyValidator_init_nonempty)
  from test_proxy_details [OF assms(1,2) this, of e] obtain r ds where
    *: "test_proxy v e proxy = Inr r" "r ''test_details'' = Some (PyDetails ds)"
      "map url ds = test_urls v"
      "\<forall>i < length (test_urls v).
            ds ! i = detail_of (test_urls v ! i)
                       (requests_get e i (test_urls v ! i) ip port (timeout v))"
    by blast
  from *(3) have "length ds = length (test_urls v)" by (metis length_map)
  with * show ?thesis by blast
qed

theorem one_outcome_per_target_url_witness:
  "\<exists>r ds. test_proxy (ProxyValidator_init (Some [''https://a.example'', ''https://b.example''])
              10) env_E3 proxy_E = Inr r
      \<and> r ''test_details'' = Some (PyDetails ds)
      \<and> ds = [\<lparr> url = ''https://a.example'', success = False, response_time = PyInt (- 1),
                 status_code = None, error = Some ''Proxy Error'' \<rparr>,
               \<lparr> url = ''https://b.example'', success = True,
                 response_time = PyFloat (33 / 100), status_code = Some 200, error = None \<rparr>]"
proof -
  define v where
    "v = ProxyValidator_init (Some [''https://a.example'', ''https://b.example'']) 10"
  have us: "test_urls v = [''https://a.example'', ''https://b.example'']"
    by (simp add: v_def ProxyValidator_init_def)
  from one_outcome_per_target_url [OF proxy_E_ip_port v_def, of env_E3] obtain r ds where
    *: "test_proxy v env_E3 proxy_E = Inr r" "r ''test_details'' = Some (PyDetails ds)"
      "length ds = length (test_urls v)"
      "\<forall>i < length (test_urls v).
            ds ! i = detail_of (test_urls v ! i)
                       (requests_get env_E3 i (test_urls v ! i) (PyStr ''10.0.0.1'')
                          (PyStr ''8080'') (timeout v))"
    by blast
  from *(3) have l: "length ds = 2" by (simp add: us)
  from *(4) have "ds ! 0 = detail_of ''https://a.example''
       (requests_get env_E3 0 ''https://a.example'' (PyStr ''10.0.0.1'') (PyStr ''8080'') (timeout v))"
    and "ds ! 1 = detail_of ''https://b.example''
       (requests_get env_E3 1 ''https://b.example'' (PyStr ''10.0.0.1'') (PyStr ''8080'') (timeout v))"
    by (simp_all add: us)
  then have e0: "ds ! 0 = \<lparr> url = ''https://a.example'', success = False,
                 response_time = PyInt (- 1), status_code = None, error = Some ''Proxy Error'' \<rparr>"
    and e1: "ds ! 1 = \<lparr> url = ''https://b.example'', success = True,
                 response_time = PyFloat (33 / 100), status_code = Some 200, error = None \<rparr>"
    by (simp_all add: env_E3_def scripted_env_def detail_of_cases py_round_values)
  from l obtain a b where ab: "ds = [a, b]"
    by (metis (no_types) One_nat_def Suc_1 length_0_conv length_Suc_conv)
  with e0 e1 have "ds = [\<lparr> url = ''https://a.example'', success = False,
                 response_time = PyInt (- 1), status_code = None, error = Some ''Proxy Error'' \<rparr>,
               \<lparr> url = ''https://b.example'', success = True,
                 response_time = PyFloat (33 / 100), status_code = Some 200, error = None \<rparr>]"
    by simp
  with * show ?thesis unfolding v_def by blast
qed

section \<open>Fields carried over from the input\<close>

text \<open>
  Claim C10. The record returned by \<open>test_proxy\<close> agrees with the input record on
  every key that is not one of the seven result keys; in particular the ip, port,
  country, anonymity and source fields are those of the input, and ip and port are
  present.
\<close>

theorem test_proxy_preserves_input_fields:
  assumes "test_proxy v e proxy = Inr r"
  shows "(\<forall>k. k \<notin> set result_keys \<longrightarrow> r k = proxy k)
      \<and> r ''ip'' = proxy ''ip'' \<and> r ''port'' = proxy ''port''
      \<and> r ''country'' = proxy ''country'' \<and> r ''anonymity'' = proxy ''anonymity''
      \<and> r ''source'' = proxy ''source''
      \<and> r ''ip'' \<noteq> None \<and> r ''port'' \<noteq> None"
proof -
  from test_proxy_Inr [OF assms] obtain ip port where
    ip: "proxy ''ip'' = Some ip" "proxy ''port'' = Some port" and
    r: "r = scored proxy e
            (map2 detail_of (test_urls v) (responses e (timeout v) ip port 0 (test_urls v)))
            (successful_elapsed v e ip port) (length (test_urls v))"
    by blast
  have frame: "\<forall>k. k \<notin> set result_keys \<longrightarrow> r k = proxy k"
    unfolding r by (simp add: scored_frame)
  have "''ip'' \<notin> set result_keys" "''port'' \<notin> set result_keys"
    "''country'' \<notin> set result_keys" "''anonymity'' \<notin> set result_keys"
    "''source'' \<notin> set result_keys"
    by (simp_all add: result_keys_def)
  with frame ip show ?thesis by simp
qed

theorem test_proxy_preserves_input_fields_witness:
  "\<exists>r. test_proxy validator_0 env_E1 proxy_E = Inr r
     \<and> r ''ip'' = Some (PyStr ''10.0.0.1'') \<and> r ''port'' = Some (PyStr ''8080'')
     \<and> r ''country'' = Some (PyStr ''Germany'') \<and> r ''anonymity'' = Some (PyStr ''elite proxy'')
     \<and> r ''source'' = Some (PyStr ''www.sslproxies.org'')
     \<and> r ''code'' = Some (PyStr ''DE'')"
proof -
  obtain r where h: "test_proxy validator_0 env_E1 proxy_E = Inr r"
    using test_proxy_E by blast
  have "''code'' \<notin> set result_keys" by (simp add: result_keys_def)
  with test_proxy_preserves_input_fields [OF h]
  have "r ''ip'' = proxy_E ''ip''" "r ''port'' = proxy_E ''port''"
    "r ''country'' = proxy_E ''country''" "r ''anonymity'' = proxy_E ''anonymity''"
    "r ''source'' = proxy_E ''source''" "r ''code'' = proxy_E ''code''"
    by blast+
  then show ?thesis using h by (simp add: proxy_E_def make_proxy_def)
qed

section \<open>Selection\<close>

lemma number_of_rate:
  "is_num (x ''success_rate'') \<Longrightarrow>
     (case getitem x ''success_rate'' of Inl e \<Rightarrow> Inl e | Inr v \<Rightarrow> number_of v) = Inr (rate_of x)"
  by (cases "x ''success_rate''" rule: is_num.cases) (simp_all add: getitem_def rate_of_def)

lemma sort_key_of_well_scored:
  assumes "well_scored x"
  shows "sort_key_of x = Inr (selection_key x)"
proof -
  from assms obtain n t where
    "x ''success_rate'' = Some (PyNum n)" "x ''response_time'' = Some (PyNum t)"
    unfolding well_scored_def
    by (metis is_num.elims(2))
  then show ?thesis
    by (simp add: sort_key_of_def getitem_def selection_key_def rate_of_def latency_of_def)
qed

lemma keys_of_well_scored:
  "\<forall>x \<in> set xs. well_scored x \<Longrightarrow> keys_of xs = Inr (map selection_key xs)"
  by (induction xs) (simp_all add: sort_key_of_well_scored)

lemma insort_key_decorated:
  "insort_key fst (f x, x) (map (\<lambda>y. (f y, y)) ys) = map (\<lambda>y. (f y, y)) (insort_key f x ys)"
  by (induction ys) simp_all

lemma sort_key_decorated:
  "sort_key fst (zip (map f xs) xs) = map (\<lambda>y. (f y, y)) (sort_key f xs)"
  by (induction xs) (simp_all add: insort_key_decorated)

lemma sort_decorated_undecorated:
  "map snd (sort_key fst (zip (map f xs) xs)) = sort_key f xs"
  by (simp add: sort_key_decorated comp_def)

lemma select_best_proxy_empty:
  "active_proxies m = [] \<Longrightarrow>
     select_best_proxy m = Inr (m\<lparr>printed := printed m @ [NoActiveProxies]\<rparr>)"
  by (simp add: select_best_proxy_def)

lemma select_best_proxy_eq:
  assumes ws: "\<forall>x \<in> set (active_proxies m). well_scored x"
    and ne: "active_proxies m \<noteq> []"
  shows "\<exists>best rest l. sort_key selection_key (active_proxies m) = best # rest
     \<and> select_best_proxy m =
         Inr (m\<lparr>active_proxies := best # rest, current_proxy := Some best,
                printed := printed m @ [l]\<rparr>)"
proof -
  have "sort_key selection_key (active_proxies m) \<noteq> []"
    using ne by (metis length_0_conv length_sort)
  then obtain best rest where s: "sort_key selection_key (active_proxies m) = best # rest"
    by (cases "sort_key selection_key (active_proxies m)") auto
  have "best \<in> set (sort_key selection_key (active_proxies m))" by (simp add: s)
  then have "best \<in> set (active_proxies m)" by simp
  with ws have "well_scored best" by blast
  then obtain ip port rt sr where f:
    "best ''ip'' = Some ip" "best ''port'' = Some port"
    "best ''response_time'' = Some rt" "best ''success_rate'' = Some sr"
    unfolding well_scored_def has_address_def
    by (metis is_num.elims(2) not_None_eq)
  have "select_best_proxy m =
         Inr (m\<lparr>active_proxies := best # rest, current_proxy := Some best,
                printed := printed m @ [BestProxy ip port rt sr]\<rparr>)"
    using ne
    by (simp add: select_best_proxy_def keys_of_well_scored [OF ws]
          sort_decorated_undecorated s getitem_def f)
  with s show ?thesis by blast
qed

section \<open>The loop over the completed calls\<close>

lemma scored_results_Nil [simp]: "scored_results run [] = []"
  by (simp add: scored_results_def map_filter_simps)

lemma scored_results_Cons:
  "scored_results run ((i, p) # tasks) =
     (case run i p of Inl e \<Rightarrow> scored_results run tasks
                    | Inr r \<Rightarrow> r # scored_results run tasks)"
  by (simp add: scored_results_def map_filter_simps split: sum.splits)

lemma report_error_eq:
  "p ''ip'' = Some ip \<Longrightarrow> p ''port'' = Some port \<Longrightarrow>
     report_error p e m = Inr (m\<lparr>printed := printed m @ [ErrorTesting ip port e]\<rparr>)"
  by (simp add: report_error_def)

lemma handle_result_eq:
  assumes "p ''ip'' = Some ip" "p ''port'' = Some port" "well_scored r"
  shows "\<exists>st sr. r ''status'' = Some st \<and> r ''success_rate'' = Some sr \<and>
     handle_result p r m =
     Inr (m\<lparr>active_proxies := active_proxies m @ (if accepted r then [r] else []),
            printed := printed m @
              [Tested (if accepted r then Check else if 0 < rate_of r then Warning else Cross)
                 ip port st sr]\<rparr>)"
proof -
  from assms(3) obtain b n st where f:
    "r ''success'' = Some (PyBool b)" "r ''success_rate'' = Some (PyNum n)"
    "r ''status'' = Some st"
    unfolding well_scored_def
    by (metis is_bool.elims(2) is_num.elims(2) not_None_eq)
  have "handle_result p r m =
     Inr (m\<lparr>active_proxies := active_proxies m @ (if accepted r then [r] else []),
            printed := printed m @
              [Tested (if accepted r then Check else if 0 < rate_of r then Warning else Cross)
                 ip port st (PyNum n)]\<rparr>)"
    by (cases b)
       (simp_all add: handle_result_def f assms(1,2) status_mark_def getitem_def accepted_def
          rate_of_def)
  with f show ?thesis by blast
qed

lemma reported_Nil [simp]: "reported run [] ls"
  by (simp add: reported_def)

lemma task_reported_mono:
  assumes "task_reported run ls task" "set ls \<subseteq> set ls'"
  shows "task_reported run ls' task"
proof -
  obtain i p where t: "task = (i, p)" by (cases task) auto
  from assms(1) obtain a b where ab: "p ''ip'' = Some a" "p ''port'' = Some b"
    unfolding task_reported_def t by (auto split: option.splits)
  show ?thesis
  proof (cases "run i p")
    case (Inl e)
    with assms ab show ?thesis by (auto simp: task_reported_def t)
  next
    case (Inr r)
    from assms(1) obtain st sr where "r ''status'' = Some st" "r ''success_rate'' = Some sr"
      unfolding task_reported_def t by (auto simp: ab Inr split: option.splits)
    with assms ab Inr show ?thesis by (auto simp: task_reported_def t)
  qed
qed

lemma reported_mono:
  "reported run tasks ls \<Longrightarrow> set ls \<subseteq> set ls' \<Longrightarrow> reported run tasks ls'"
  unfolding reported_def list_all_iff
  by (blast intro: task_reported_mono)

lemma reported_Cons:
  assumes "reported run [(i, p)] [l]" "reported run tasks ls"
  shows "reported run ((i, p) # tasks) (l # ls)"
proof -
  have "reported run [(i, p)] (l # ls)"
    by (rule reported_mono [OF assms(1)]) simp
  moreover have "reported run tasks (l # ls)"
    by (rule reported_mono [OF assms(2)]) auto
  ultimately show ?thesis by (simp add: reported_def)
qed

lemma reported_set:
  "set tasks' = set tasks \<Longrightarrow> reported run tasks ls \<Longrightarrow> reported run tasks' ls"
  by (simp add: reported_def list_all_iff)

lemma completed_loop_eq:
  assumes "\<forall>(i, p) \<in> set tasks. has_address p"
    and "\<forall>(i, p) \<in> set tasks. \<forall>r. run i p = Inr r \<longrightarrow> well_scored r"
  shows "\<exists>ls. completed_loop run tasks m =
      Inr (m\<lparr>active_proxies := active_proxies m @ filter accepted (scored_results run tasks),
             printed := printed m @ ls\<rparr>)
    \<and> reported run tasks ls"
  using assms
proof (induction tasks arbitrary: m)
  case Nil
  have "completed_loop run [] m =
      Inr (m\<lparr>active_proxies := active_proxies m @ filter accepted (scored_results run []),
             printed := printed m @ []\<rparr>)
      \<and> reported run [] []"
    by simp
  then show ?case by (rule exI)
next
  case (Cons task tasks)
  obtain i p where task: "task = (i, p)" by (cases task) auto
  from Cons.prems(1) obtain ip port where ip: "p ''ip'' = Some ip" "p ''port'' = Some port"
    by (auto simp: task has_address_def)
  have rest1: "\<forall>(i, p) \<in> set tasks. has_address p"
    and rest2: "\<forall>(i, p) \<in> set tasks. \<forall>r. run i p = Inr r \<longrightarrow> well_scored r"
    using Cons.prems by auto
  show ?case
  proof (cases "run i p")
    case (Inl e)
    define m1 where "m1 = m\<lparr>printed := printed m @ [ErrorTesting ip port e]\<rparr>"
    from Cons.IH [OF rest1 rest2, of m1] obtain ls where
      l: "completed_loop run tasks m1 =
            Inr (m1\<lparr>active_proxies := active_proxies m1 @ filter accepted (scored_results run tasks),
                    printed := printed m1 @ ls\<rparr>)"
      and e: "reported run tasks ls"
      by (elim exE conjE)
    have "completed_loop run (task # tasks) m =
      Inr (m\<lparr>active_proxies := active_proxies m @ filter accepted (scored_results run (task # tasks)),
             printed := printed m @ (ErrorTesting ip port e # ls)\<rparr>)"
      by (simp add: task Inl report_error_eq [OF ip] l [unfolded m1_def] scored_results_Cons)
    moreover have "reported run [(i, p)] [ErrorTesting ip port e]"
      by (simp add: reported_def task_reported_def ip Inl)
    then have "reported run (task # tasks) (ErrorTesting ip port e # ls)"
      unfolding task using e by (rule reported_Cons)
    ultimately show ?thesis by (intro exI conjI)
  next
    case (Inr r)
    with Cons.prems(2) have "well_scored r" by (auto simp: task)
    from handle_result_eq [OF ip this, of m] obtain st sr where
      f: "r ''status'' = Some st" "r ''success_rate'' = Some sr" and
      h: "handle_result p r m =
           Inr (m\<lparr>active_proxies := active_proxies m @ (if accepted r then [r] else []),
                  printed := printed m @
              [Tested (if accepted r then Check else if 0 < rate_of r then Warning else Cross)
                 ip port st sr]\<rparr>)"
      by (elim exE conjE)
    define l0 where
      "l0 = Tested (if accepted r then Check else if 0 < rate_of r then Warning else Cross)
                 ip port st sr"
    define m1 where "m1 = m\<lparr>active_proxies := active_proxies m @ (if accepted r then [r] else []),
                  printed := printed m @ [l0]\<rparr>"
    from Cons.IH [OF rest1 rest2, of m1] obtain ls where
      l: "completed_loop run tasks m1 =
            Inr (m1\<lparr>active_proxies := active_proxies m1 @ filter accepted (scored_results run tasks),
                    printed := printed m1 @ ls\<rparr>)"
      and e: "reported run tasks ls"
      by (elim exE conjE)
    have "completed_loop run (task # tasks) m =
      Inr (m\<lparr>active_proxies := active_proxies m @ filter accepted (scored_results run (task # tasks)),
             printed := printed m @ (l0 # ls)\<rparr>)"
      by (simp add: task Inr h [folded l0_def] l [unfolded m1_def] scored_results_Cons)
    moreover have "reported run [(i, p)] [l0]"
      by (simp add: reported_def task_reported_def ip Inr f l0_def)
    then have "reported run (task # tasks) (l0 # ls)"
      unfolding task using e by (rule reported_Cons)
    ultimately show ?thesis by (intro exI conjI)
  qed
qed

lemma scored_results_set:
  "r \<in> set (scored_results run tasks) \<Longrightarrow> \<exists>(i, p) \<in> set tasks. run i p = Inr r"
proof (induction tasks)
  case Nil
  then show ?case by simp
next
  case (Cons task tasks)
  obtain i p where task: "task = (i, p)" by (cases task) auto
  from Cons show ?case
    by (cases "run i p") (auto simp: task scored_results_Cons)
qed

lemma scored_results_mset:
  assumes "mset tasks = mset tasks'"
  shows "mset (scored_results run tasks) = mset (scored_results run tasks')"
proof -
  have "mset (scored_results run ts) =
          image_mset (the \<circ> (\<lambda>(i, p). case run i p of Inl e \<Rightarrow> None | Inr r \<Rightarrow> Some r))
            (filter_mset (\<lambda>x. (case x of (i, p) \<Rightarrow>
                case run i p of Inl e \<Rightarrow> None | Inr r \<Rightarrow> Some r) \<noteq> None) (mset ts))"
    for ts
    by (simp add: scored_results_def map_filter_def)
  then show ?thesis using assms by simp
qed

section \<open>A test cycle\<close>

lemma select_best_proxy_result:
  assumes "\<forall>x \<in> set (active_proxies m). well_scored x"
  shows "\<exists>ls. select_best_proxy m =
     Inr (m\<lparr>active_proxies := sort_key selection_key (active_proxies m),
            current_proxy := (case sort_key selection_key (active_proxies m) of
                                [] \<Rightarrow> current_proxy m | best # rest \<Rightarrow> Some best),
            printed := printed m @ ls\<rparr>)"
proof (cases "active_proxies m = []")
  case True
  then have "select_best_proxy m =
     Inr (m\<lparr>active_proxies := sort_key selection_key (active_proxies m),
            current_proxy := (case sort_key selection_key (active_proxies m) of
                                [] \<Rightarrow> current_proxy m | best # rest \<Rightarrow> Some best),
            printed := printed m @ [NoActiveProxies]\<rparr>)"
    by (simp add: select_best_proxy_empty)
  then show ?thesis by (rule exI)
next
  case False
  from select_best_proxy_eq [OF assms False] obtain best rest l where
    s: "sort_key selection_key (active_proxies m) = best # rest" and
    e: "select_best_proxy m =
         Inr (m\<lparr>active_proxies := best # rest, current_proxy := Some best,
                printed := printed m @ [l]\<rparr>)"
    by (elim exE conjE)
  have "select_best_proxy m =
     Inr (m\<lparr>active_proxies := sort_key selection_key (active_proxies m),
            current_proxy := (case sort_key selection_key (active_proxies m) of
                                [] \<Rightarrow> current_proxy m | best # rest \<Rightarrow> Some best),
            printed := printed m @ [l]\<rparr>)"
    by (simp add: e s)
  then show ?thesis by (rule exI)
qed

lemma test_proxies_with_eq:
  assumes ha: "\<forall>p \<in> set (proxy_data m). has_address p"
    and ws: "\<forall>i p r. run i p = Inr r \<longrightarrow> well_scored r"
    and sub: "set (as_completed (enumerate 0 (proxy_data m))) \<subseteq> set (enumerate 0 (proxy_data m))"
    and ne: "proxy_data m \<noteq> []"
  shows "\<exists>ls. test_proxies_with run as_completed m =
     Inr (m\<lparr>active_proxies := sort_key selection_key
              (filter accepted (scored_results run (as_completed (enumerate 0 (proxy_data m))))),
            current_proxy :=
              (case sort_key selection_key
                 (filter accepted (scored_results run (as_completed (enumerate 0 (proxy_data m))))) of
                 [] \<Rightarrow> current_proxy m | best # rest \<Rightarrow> Some best),
            saved := Some \<lparr> snap_proxies = proxy_data m,
                     snap_active = filter accepted
                        (scored_results run (as_completed (enumerate 0 (proxy_data m)))),
                     snap_current = current_proxy m \<rparr>,
            printed := printed m @ ls\<rparr>)
     \<and> reported run (as_completed (enumerate 0 (proxy_data m))) ls"
proof -
  define tasks where "tasks = as_completed (enumerate 0 (proxy_data m))"
  define acc where "acc = filter accepted (scored_results run tasks)"
  define m0 where "m0 = m\<lparr>active_proxies := [], printed := printed m @ [TestingProxies]\<rparr>"
  have t1: "\<forall>(i, p) \<in> set tasks. has_address p"
    using ha sub unfolding tasks_def by (auto simp: in_set_enumerate_eq)
  have t2: "\<forall>(i, p) \<in> set tasks. \<forall>r. run i p = Inr r \<longrightarrow> well_scored r"
    using ws by auto
  from completed_loop_eq [OF t1 t2, of m0] obtain ls where
    l: "completed_loop run tasks m0 =
          Inr (m0\<lparr>active_proxies := active_proxies m0 @ acc, printed := printed m0 @ ls\<rparr>)"
    and rep: "reported run tasks ls"
    unfolding acc_def by (elim exE conjE)
  define m1 where "m1 = m0\<lparr>active_proxies := active_proxies m0 @ acc, printed := printed m0 @ ls\<rparr>"
  have a1: "active_proxies (save_results m1) = acc"
    by (simp add: save_results_def m1_def m0_def)
  have "\<forall>x \<in> set acc. well_scored x"
    using ws by (fastforce simp: acc_def dest: scored_results_set)
  then have "\<forall>x \<in> set (active_proxies (save_results m1)). well_scored x"
    by (simp add: a1)
  from select_best_proxy_result [OF this] obtain ls2 where
    s: "select_best_proxy (save_results m1) =
     Inr ((save_results m1)\<lparr>active_proxies := sort_key selection_key acc,
            current_proxy := (case sort_key selection_key acc of
                                [] \<Rightarrow> current_proxy (save_results m1) | best # rest \<Rightarrow> Some best),
            printed := printed (save_results m1) @ ls2\<rparr>)"
    unfolding a1 by (elim exE)
  have "test_proxies_with run as_completed m =
     Inr (m\<lparr>active_proxies := sort_key selection_key acc,
            current_proxy := (case sort_key selection_key acc of
                 [] \<Rightarrow> current_proxy m | best # rest \<Rightarrow> Some best),
            saved := Some \<lparr> snap_proxies = proxy_data m, snap_active = acc,
                     snap_current = current_proxy m \<rparr>,
            printed := printed m @ (TestingProxies # ls @ ResultsSaved # ls2)\<rparr>)"
  proof -
    have "test_proxies_with run as_completed m = select_best_proxy (save_results m1)"
      using ne
      by (simp add: test_proxies_with_def Let_def l [unfolded tasks_def m0_def] m1_def m0_def)
    moreover have "current_proxy (save_results m1) = current_proxy m"
      by (simp add: save_results_def m1_def m0_def)
    ultimately show ?thesis
      unfolding s by (simp add: save_results_def m1_def m0_def cong: list.case_cong)
  qed
  moreover have "reported run tasks (TestingProxies # ls @ ResultsSaved # ls2)"
    by (rule reported_mono [OF rep]) auto
  ultimately show ?thesis unfolding acc_def tasks_def by (intro exI conjI)
qed

lemma test_proxy_well_scored:
  assumes "test_proxy v e p = Inr r"
  shows "well_scored r"
proof -
  from test_proxy_Inr [OF assms] obtain ip port where
    ip: "p ''ip'' = Some ip" "p ''port'' = Some port" and
    r: "r = scored p e
            (map2 detail_of (test_urls v) (responses e (timeout v) ip port 0 (test_urls v)))
            (successful_elapsed v e ip port) (length (test_urls v))"
    by blast
  have "''ip'' \<notin> set result_keys" "''port'' \<notin> set result_keys"
    by (simp_all add: result_keys_def)
  then have "r ''ip'' = Some ip" "r ''port'' = Some port"
    unfolding r by (simp_all add: scored_frame ip)
  then show ?thesis
    unfolding well_scored_def has_address_def
    by (simp add: r scored_fields)
qed

lemma test_proxy_accepted:
  assumes "test_proxy v e p = Inr r"
  shows "accepted r = is_active r" "(r ''success'' = Some (PyBool True)) = is_active r"
proof -
  from test_proxy_Inr [OF assms] obtain ip port where
    r: "r = scored p e
            (map2 detail_of (test_urls v) (responses e (timeout v) ip port 0 (test_urls v)))
            (successful_elapsed v e ip port) (length (test_urls v))"
    by blast
  show "accepted r = is_active r" "(r ''success'' = Some (PyBool True)) = is_active r"
    unfolding r by (simp_all add: accepted_def is_active_def scored_fields)
qed

section \<open>Selection of the best endpoint\<close>

lemma well_scored_active_record [simp]: "well_scored (active_record ip rate latency)"
  by (simp add: well_scored_def has_address_def active_record_def)

lemma selection_key_active_record [simp]:
  "selection_key (active_record ip rate latency) = (- rate, latency)"
  by (simp add: selection_key_def rate_of_def latency_of_def active_record_def)

lemma master_1_well_scored: "\<forall>x \<in> set (active_proxies master_1). well_scored x"
  by (simp add: master_1_def)

lemma master_1_sorted:
  "sort_key selection_key (active_proxies master_1) =
     [active_record ''10.0.0.3'' 100 (1 / 5), active_record ''10.0.0.4'' 100 (1 / 5),
      active_record ''10.0.0.2'' 100 (3 / 10), active_record ''10.0.0.1'' (667 / 10) (1 / 2)]"
  by (simp add: master_1_def)



section \<open>Idempotence of the selection sort\<close>

text \<open>
  Claim C9. On an active set of scored records that is already sorted by the selection
  key, \<open>select_best_proxy\<close> leaves the sequence as it is; in particular a second call
  after a first one yields the same sequence and the same selected endpoint.
\<close>

theorem selection_sort_idempotent:
  assumes "\<forall>x \<in> set (active_proxies m). well_scored x"
  shows "(sorted (map selection_key (active_proxies m)) \<longrightarrow>
            (\<exists>m'. select_best_proxy m = Inr m' \<and> active_proxies m' = active_proxies m))
      \<and> (\<forall>m'. select_best_proxy m = Inr m' \<longrightarrow>
            (\<exists>m''. select_best_proxy m' = Inr m'' \<and> active_proxies m'' = active_proxies m'
                \<and> current_proxy m'' = current_proxy m'))"
proof (intro conjI impI allI)
  assume srt: "sorted (map selection_key (active_proxies m))"
  from select_best_proxy_result [OF assms] obtain ls where
    "select_best_proxy m =
     Inr (m\<lparr>active_proxies := sort_key selection_key (active_proxies m),
            current_proxy := (case sort_key selection_key (active_proxies m) of
                                [] \<Rightarrow> current_proxy m | best # rest \<Rightarrow> Some best),
            printed := printed m @ ls\<rparr>)"
    by (elim exE)
  then show "\<exists>m'. select_best_proxy m = Inr m' \<and> active_proxies m' = active_proxies m"
    by (simp add: sort_key_id_if_sorted [OF srt])
next
  fix m' assume e: "select_best_proxy m = Inr m'"
  define xs where "xs = sort_key selection_key (active_proxies m)"
  from select_best_proxy_result [OF assms] e obtain ls where
    m': "m' = m\<lparr>active_proxies := xs,
            current_proxy := (case xs of [] \<Rightarrow> current_proxy m | best # rest \<Rightarrow> Some best),
            printed := printed m @ ls\<rparr>"
    unfolding xs_def by auto
  have a: "active_proxies m' = xs" by (simp add: m')
  have c: "current_proxy m' = (case xs of [] \<Rightarrow> current_proxy m | best # rest \<Rightarrow> Some best)"
    by (simp add: m')
  have ws: "\<forall>x \<in> set (active_proxies m'). well_scored x"
    using assms by (simp add: a xs_def)
  have again: "sort_key selection_key xs = xs"
    unfolding xs_def by (rule sort_key_id_if_sorted) (rule sorted_sort_key)
  from select_best_proxy_result [OF ws] obtain ls2 where
    "select_best_proxy m' =
     Inr (m'\<lparr>active_proxies := sort_key selection_key (active_proxies m'),
            current_proxy := (case sort_key selection_key (active_proxies m') of
                                [] \<Rightarrow> current_proxy m' | best # rest \<Rightarrow> Some best),
            printed := printed m' @ ls2\<rparr>)"
    by (elim exE)
  then have "select_best_proxy m' =
     Inr (m'\<lparr>active_proxies := xs,
            current_proxy := (case xs of [] \<Rightarrow> current_proxy m' | best # rest \<Rightarrow> Some best),
            printed := printed m' @ ls2\<rparr>)"
    unfolding a again .
  moreover have "(case xs of [] \<Rightarrow> current_proxy m' | best # rest \<Rightarrow> Some best) = current_proxy m'"
    unfolding c by (cases xs) simp_all
  ultimately show "\<exists>m''. select_best_proxy m' = Inr m'' \<and> active_proxies m'' = active_proxies m'
                \<and> current_proxy m'' = current_proxy m'"
    by (simp add: a)
qed

theorem selection_sort_idempotent_witness:
  "\<exists>m' m''. select_best_proxy master_1 = Inr m' \<and> select_best_proxy m' = Inr m''
     \<and> active_proxies m'' = active_proxies m'
     \<and> ips (active_proxies m'')
         = [Some (PyStr ''10.0.0.3''), Some (PyStr ''10.0.0.4''), Some (PyStr ''10.0.0.2''),
            Some (PyStr ''10.0.0.1'')]"
proof -
  from select_best_proxy_result [OF master_1_well_scored] obtain m' where
    e: "select_best_proxy master_1 = Inr m'"
    and a: "active_proxies m' = sort_key selection_key (active_proxies master_1)"
    by auto
  from selection_sort_idempotent [OF master_1_well_scored] e obtain m'' where
    e2: "select_best_proxy m' = Inr m''" "active_proxies m'' = active_proxies m'"
    by blast
  have "ips (active_proxies m'')
         = [Some (PyStr ''10.0.0.3''), Some (PyStr ''10.0.0.4''), Some (PyStr ''10.0.0.2''),
            Some (PyStr ''10.0.0.1'')]"
    by (simp add: e2 a master_1_sorted ips_def active_record_def)
  with e e2 show ?thesis by blast
qed

section \<open>The active set after a cycle\<close>

lemma test_proxies_run_well_scored:
  "\<forall>i p r. test_proxy v (world i) p = Inr r \<longrightarrow> well_scored r"
  by (blast intro: test_proxy_well_scored)

lemma filter_accepted_scored_results:
  "filter accepted (scored_results (\<lambda>i. test_proxy v (world i)) tasks)
     = filter is_active (scored_results (\<lambda>i. test_proxy v (world i)) tasks)"
proof (rule filter_cong [OF refl])
  fix r assume "r \<in> set (scored_results (\<lambda>i. test_proxy v (world i)) tasks)"
  from scored_results_set [OF this] obtain i p where "test_proxy v (world i) p = Inr r"
    by auto
  then show "accepted r = is_active r" by (rule test_proxy_accepted)
qed

text \<open>
  Claim C8. In every record that \<open>test_proxy\<close> returns, the \<open>success\<close> flag is
  \<open>True\<close> exactly when the status is \<open>active\<close>. A cycle over candidates with
  addresses, whatever the completion order, raises nothing; the results appended to the
  active set (the saved snapshot shows them in completion order) are exactly those whose
  flag is true, and the active set after the cycle consists of exactly the results of
  the cycle whose status is \<open>active\<close>.
\<close>

theorem active_set_exactly_active_results:
  assumes "\<forall>p \<in> set (proxy_data m). has_address p"
    and "mset (as_completed (enumerate 0 (proxy_data m))) = mset (enumerate 0 (proxy_data m))"
    and "proxy_data m \<noteq> []"
  shows "(\<forall>v e p r. test_proxy v e p = Inr r \<longrightarrow>
            ((r ''success'' = Some (PyBool True)) = is_active r) \<and> accepted r = is_active r)
      \<and> (\<exists>m' s. test_proxies world as_completed m = Inr m'
            \<and> saved m' = Some s
            \<and> snap_active s =
                filter accepted (scored_results (\<lambda>i. test_proxy (validator m) (world i))
                                   (as_completed (enumerate 0 (proxy_data m))))
            \<and> mset (active_proxies m') =
                mset (filter is_active
                        (scored_results (\<lambda>i. test_proxy (validator m) (world i))
                           (enumerate 0 (proxy_data m)))))"
proof (rule conjI)
  show "\<forall>v e p r. test_proxy v e p = Inr r \<longrightarrow>
            ((r ''success'' = Some (PyBool True)) = is_active r) \<and> accepted r = is_active r"
    by (simp add: test_proxy_accepted)
next
  define run where "run = (\<lambda>i. test_proxy (validator m) (world i))"
  define tasks where "tasks = as_completed (enumerate 0 (proxy_data m))"
  have sub: "set (as_completed (enumerate 0 (proxy_data m))) \<subseteq> set (enumerate 0 (proxy_data m))"
    using mset_eq_setD [OF assms(2)] by simp
  have ws: "\<forall>i p r. run i p = Inr r \<longrightarrow> well_scored r"
    unfolding run_def by (rule test_proxies_run_well_scored)
  from test_proxies_with_eq [where m = m and run = run and as_completed = as_completed,
      OF assms(1) ws sub assms(3)] obtain ls where
    e: "test_proxies_with run as_completed m =
     Inr (m\<lparr>active_proxies := sort_key selection_key (filter accepted (scored_results run tasks)),
            current_proxy :=
              (case sort_key selection_key (filter accepted (scored_results run tasks)) of
                 [] \<Rightarrow> current_proxy m | best # rest \<Rightarrow> Some best),
            saved := Some \<lparr> snap_proxies = proxy_data m,
                     snap_active = filter accepted (scored_results run tasks),
                     snap_current = current_proxy m \<rparr>,
            printed := printed m @ ls\<rparr>)"
    unfolding tasks_def by (elim exE conjE)
  define m' where "m' = m\<lparr>active_proxies := sort_key selection_key (filter accepted (scored_results run tasks)),
            current_proxy :=
              (case sort_key selection_key (filter accepted (scored_results run tasks)) of
                 [] \<Rightarrow> current_proxy m | best # rest \<Rightarrow> Some best),
            saved := Some \<lparr> snap_proxies = proxy_data m,
                     snap_active = filter accepted (scored_results run tasks),
                     snap_current = current_proxy m \<rparr>,
            printed := printed m @ ls\<rparr>"
  define s where "s = \<lparr> snap_proxies = proxy_data m,
                     snap_active = filter accepted (scored_results run tasks),
                     snap_current = current_proxy m \<rparr>"
  have 1: "test_proxies world as_completed m = Inr m'"
    unfolding test_proxies_def m'_def using e by (simp add: run_def)
  have 2: "saved m' = Some s" by (simp add: m'_def s_def)
  have 3: "snap_active s = filter accepted (scored_results run tasks)" by (simp add: s_def)
  have "mset (scored_results run tasks) = mset (scored_results run (enumerate 0 (proxy_data m)))"
    unfolding tasks_def by (rule scored_results_mset [OF assms(2)])
  then have "mset (filter is_active (scored_results run tasks))
               = mset (filter is_active (scored_results run (enumerate 0 (proxy_data m))))"
    by simp
  moreover have "mset (active_proxies m') = mset (filter is_active (scored_results run tasks))"
    by (simp add: m'_def run_def filter_accepted_scored_results)
  ultimately have 4: "mset (active_proxies m') =
       mset (filter is_active (scored_results run (enumerate 0 (proxy_data m))))"
    by simp
  from 1 2 3 4 show "\<exists>m' s. test_proxies world as_completed m = Inr m'
            \<and> saved m' = Some s
            \<and> snap_active s =
                filter accepted (scored_results (\<lambda>i. test_proxy (validator m) (world i))
                                   (as_completed (enumerate 0 (proxy_data m))))
            \<and> mset (active_proxies m') =
                mset (filter is_active
                        (scored_results (\<lambda>i. test_proxy (validator m) (world i))
                           (enumerate 0 (proxy_data m))))"
    unfolding run_def tasks_def by (intro exI conjI)
qed

lemma proxy_F_ip_port:
  "proxy_F ''ip'' = Some (PyStr ''10.0.0.2'')" "proxy_F ''port'' = Some (PyStr ''3128'')"
  by (simp_all add: proxy_F_def make_proxy_def)

lemma master_0_facts:
  "proxy_data master_0 = [proxy_E, proxy_F]" "validator master_0 = validator_0"
  "current_proxy master_0 = None" "proxy_data master_0 \<noteq> []"
  "\<forall>p \<in> set (proxy_data master_0). has_address p"
  "enumerate 0 (proxy_data master_0) = [(0, proxy_E), (Suc 0, proxy_F)]"
  by (simp_all add: master_0_def has_address_def proxy_E_ip_port proxy_F_ip_port)

lemma scored_status_E:
  "scored p env_E1 ds (successful_elapsed validator_0 env_E1 ip port) 3 ''status''
     = Some (PyStr ''active'')"
  "scored p env_E4 ds (successful_elapsed validator_0 env_E4 ip port) 3 ''status''
     = Some (PyStr ''dead'')"
  by (simp_all add: scored_fields successful_elapsed_E py_round_percent_values)

lemma scored_ip:
  "scored p e ds oks n ''ip'' = p ''ip''"
  by (rule scored_frame) (simp add: result_keys_def)

theorem active_set_exactly_active_results_witness:
  "\<exists>m'. test_proxies world_0 rev master_0 = Inr m'
     \<and> ips (active_proxies m') = [Some (PyStr ''10.0.0.1'')]
     \<and> statuses (active_proxies m') = [Some (PyStr ''active'')]"
proof -
  define rE where "rE = scored proxy_E env_E1
            (map2 detail_of default_test_urls
               (responses env_E1 10 (PyStr ''10.0.0.1'') (PyStr ''8080'') 0 default_test_urls))
            (successful_elapsed validator_0 env_E1 (PyStr ''10.0.0.1'') (PyStr ''8080'')) 3"
  define rF where "rF = scored proxy_F env_E4
            (map2 detail_of default_test_urls
               (responses env_E4 10 (PyStr ''10.0.0.2'') (PyStr ''3128'') 0 default_test_urls))
            (successful_elapsed validator_0 env_E4 (PyStr ''10.0.0.2'') (PyStr ''3128'')) 3"
  have res: "scored_results (\<lambda>i. test_proxy (validator master_0) (world_0 i))
               (enumerate 0 (proxy_data master_0)) = [rE, rF]"
    by (simp add: master_0_facts scored_results_Cons world_0_def
          test_proxy_validator_0 [OF proxy_E_ip_port] test_proxy_validator_0 [OF proxy_F_ip_port]
          rE_def rF_def)
  have act: "is_active rE" "\<not> is_active rF"
    by (simp_all add: is_active_def rE_def rF_def scored_status_E)
  have perm: "mset (rev (enumerate 0 (proxy_data master_0))) = mset (enumerate 0 (proxy_data master_0))"
    by simp
  from active_set_exactly_active_results [where m = master_0 and as_completed = rev
      and world = world_0, OF master_0_facts(5) perm master_0_facts(4)]
  obtain m' where e: "test_proxies world_0 rev master_0 = Inr m'"
    and a: "mset (active_proxies m') = mset (filter is_active
                (scored_results (\<lambda>i. test_proxy (validator master_0) (world_0 i))
                   (enumerate 0 (proxy_data master_0))))"
    by blast
  from a have "mset (active_proxies m') = {#rE#}" by (simp add: res act)
  then have "active_proxies m' = [rE]" by (metis mset_single_iff_right)
  then have "ips (active_proxies m') = [Some (PyStr ''10.0.0.1'')]"
    "statuses (active_proxies m') = [Some (PyStr ''active'')]"
    by (simp_all add: ips_def statuses_def rE_def scored_ip proxy_E_ip_port scored_status_E)
  with e show ?thesis by blast
qed

text \<open>With no candidates, \<open>test_proxies\<close> returns at once and changes nothing but
  the printed text.\<close>

lemma test_proxies_no_data:
  "proxy_data m = [] \<Longrightarrow>
     test_proxies world as_completed m = Inr (m\<lparr>printed := printed m @ [NoProxiesToTest]\<rparr>)"
  by (simp add: test_proxies_def test_proxies_with_def)

section \<open>A call that raises\<close>

text \<open>The handler reads the record's ip and port for its message: when the call raised
  because the record has no ip, the handler raises as well and the loop is left.\<close>

lemma handler_raises_without_ip:
  "proxy ''ip'' = None \<Longrightarrow>
     completed_loop (\<lambda>i. test_proxy v (world i)) ((i, proxy) # tasks) m = Inl (KeyError ''ip'')"
  by (simp add: test_proxy_no_ip report_error_def)


lemma faulty_run_well_scored: "\<forall>i p r. faulty_run i p = Inr r \<longrightarrow> well_scored r"
  by (auto simp: faulty_run_def intro: test_proxy_well_scored split: if_splits)

lemma faulty_run_results:
  "scored_results faulty_run [(0, proxy_E), (Suc 0, proxy_F)] =
     [scored proxy_E env_E1
        (map2 detail_of default_test_urls
           (responses env_E1 10 (PyStr ''10.0.0.1'') (PyStr ''8080'') 0 default_test_urls))
        (successful_elapsed validator_0 env_E1 (PyStr ''10.0.0.1'') (PyStr ''8080'')) 3]"
  "scored_results faulty_run [(Suc 0, proxy_F), (0, proxy_E)] =
     [scored proxy_E env_E1
        (map2 detail_of default_test_urls
           (responses env_E1 10 (PyStr ''10.0.0.1'') (PyStr ''8080'') 0 default_test_urls))
        (successful_elapsed validator_0 env_E1 (PyStr ''10.0.0.1'') (PyStr ''8080'')) 3]"
  by (simp_all add: scored_results_Cons faulty_run_def test_proxy_E)

lemma accepted_scored_E1:
  "accepted (scored p env_E1 ds (successful_elapsed validator_0 env_E1 ip port) 3)"
  by (simp add: accepted_def scored_fields successful_elapsed_E py_round_percent_values)

text \<open>
  Claim C3, as the claim states it, at a concrete input: a cycle over two candidates in
  which the call for the second one raises. The cycle completes, and nothing on record
  afterwards has the status \<open>dead\<close>: the candidate list still holds both records as
  \<open>untested\<close>, and the active set, the selected endpoint and the snapshot hold the
  first candidate's result only. The fault is printed.
\<close>

theorem faulted_endpoint_not_recorded_dead:
  "statuses (recorded_after (test_proxies_with faulty_run id master_0))
     = [Some (PyStr ''untested''), Some (PyStr ''untested''), Some (PyStr ''active''),
        Some (PyStr ''active''), Some (PyStr ''untested''), Some (PyStr ''untested''),
        Some (PyStr ''active'')]
   \<and> ips (recorded_after (test_proxies_with faulty_run id master_0))
     = [Some (PyStr ''10.0.0.1''), Some (PyStr ''10.0.0.2''), Some (PyStr ''10.0.0.1''),
        Some (PyStr ''10.0.0.1''), Some (PyStr ''10.0.0.1''), Some (PyStr ''10.0.0.2''),
        Some (PyStr ''10.0.0.1'')]
   \<and> raised (test_proxies_with faulty_run id master_0) = None"
proof -
  have sub: "set (id (enumerate 0 (proxy_data master_0))) \<subseteq> set (enumerate 0 (proxy_data master_0))"
    by simp
  from test_proxies_with_eq [where m = master_0 and run = faulty_run and as_completed = id,
      OF master_0_facts(5) faulty_run_well_scored sub master_0_facts(4)]
  obtain ls where
    e: "test_proxies_with faulty_run id master_0 =
     Inr (master_0\<lparr>active_proxies := sort_key selection_key
              (filter accepted (scored_results faulty_run (id (enumerate 0 (proxy_data master_0))))),
            current_proxy :=
              (case sort_key selection_key
                 (filter accepted (scored_results faulty_run (id (enumerate 0 (proxy_data master_0))))) of
                 [] \<Rightarrow> current_proxy master_0 | best # rest \<Rightarrow> Some best),
            saved := Some \<lparr> snap_proxies = proxy_data master_0,
                     snap_active = filter accepted
                        (scored_results faulty_run (id (enumerate 0 (proxy_data master_0)))),
                     snap_current = current_proxy master_0 \<rparr>,
            printed := printed master_0 @ ls\<rparr>)"
    by (elim exE conjE)
  have u: "proxy_E ''status'' = Some (PyStr ''untested'')"
    "proxy_F ''status'' = Some (PyStr ''untested'')"
    by (simp_all add: proxy_E_def proxy_F_def make_proxy_def)
  show ?thesis
    unfolding e
    by (simp add: master_0_facts faulty_run_results accepted_scored_E1 recorded_def
          statuses_def ips_def scored_status_E scored_ip proxy_E_ip_port proxy_F_ip_port u)
qed

text \<open>
  Claim C3, amended. For candidates that carry an ip and a port and calls that return
  scored records when they return, a call that raises an unexpected exception does not
  abort the cycle: \<open>test_proxies\<close> returns, the fault is printed with the endpoint's
  address, no record is made for that endpoint (the candidate list is left as it was,
  and the active set holds results of calls that returned only), and every other
  endpoint's result is printed and, when its flag is set, is in the active set.
\<close>

theorem fault_does_not_abort_batch:
  assumes "\<forall>p \<in> set (proxy_data m). has_address p"
    and "\<forall>i p r. run i p = Inr r \<longrightarrow> well_scored r"
    and "mset (as_completed (enumerate 0 (proxy_data m))) = mset (enumerate 0 (proxy_data m))"
    and "proxy_data m \<noteq> []"
  shows "\<exists>m'. test_proxies_with run as_completed m = Inr m'
      \<and> proxy_data m' = proxy_data m
      \<and> mset (active_proxies m') =
          mset (filter accepted (scored_results run (enumerate 0 (proxy_data m))))
      \<and> reported run (enumerate 0 (proxy_data m)) (printed m')"
proof -
  define tasks where "tasks = as_completed (enumerate 0 (proxy_data m))"
  have sub: "set (as_completed (enumerate 0 (proxy_data m))) \<subseteq> set (enumerate 0 (proxy_data m))"
    using mset_eq_setD [OF assms(3)] by simp
  from test_proxies_with_eq [where m = m and run = run and as_completed = as_completed,
      OF assms(1,2) sub assms(4)] obtain ls where
    e: "test_proxies_with run as_completed m =
     Inr (m\<lparr>active_proxies := sort_key selection_key (filter accepted (scored_results run tasks)),
            current_proxy :=
              (case sort_key selection_key (filter accepted (scored_results run tasks)) of
                 [] \<Rightarrow> current_proxy m | best # rest \<Rightarrow> Some best),
            saved := Some \<lparr> snap_proxies = proxy_data m,
                     snap_active = filter accepted (scored_results run tasks),
                     snap_current = current_proxy m \<rparr>,
            printed := printed m @ ls\<rparr>)"
    and rep: "reported run tasks ls"
    unfolding tasks_def by (elim exE conjE)
  define m' where "m' = m\<lparr>active_proxies := sort_key selection_key (filter accepted (scored_results run tasks)),
            current_proxy :=
              (case sort_key selection_key (filter accepted (scored_results run tasks)) of
                 [] \<Rightarrow> current_proxy m | best # rest \<Rightarrow> Some best),
            saved := Some \<lparr> snap_proxies = proxy_data m,
                     snap_active = filter accepted (scored_results run tasks),
                     snap_current = current_proxy m \<rparr>,
            printed := printed m @ ls\<rparr>"
  have 1: "test_proxies_with run as_completed m = Inr m'" unfolding m'_def by (rule e)
  have 2: "proxy_data m' = proxy_data m" by (simp add: m'_def)
  have "mset (scored_results run tasks) = mset (scored_results run (enumerate 0 (proxy_data m)))"
    unfolding tasks_def by (rule scored_results_mset [OF assms(3)])
  then have 3: "mset (active_proxies m') =
          mset (filter accepted (scored_results run (enumerate 0 (proxy_data m))))"
    by (simp add: m'_def)
  have "reported run tasks (printed m')"
    by (rule reported_mono [OF rep]) (simp add: m'_def)
  moreover have "set (enumerate 0 (proxy_data m)) = set tasks"
    unfolding tasks_def using mset_eq_setD [OF assms(3)] by simp
  ultimately have 4: "reported run (enumerate 0 (proxy_data m)) (printed m')"
    by (rule reported_set [rotated])
  from 1 2 3 4 show ?thesis by (intro exI conjI)
qed

theorem fault_does_not_abort_batch_witness:
  "\<exists>m'. test_proxies_with faulty_run rev master_0 = Inr m'
     \<and> proxy_data m' = [proxy_E, proxy_F]
     \<and> ips (active_proxies m') = [Some (PyStr ''10.0.0.1'')]
     \<and> ErrorTesting (PyStr ''10.0.0.2'') (PyStr ''3128'') (Fault ''unexpected'') \<in> set (printed m')"
proof -
  have perm: "mset (rev (enumerate 0 (proxy_data master_0))) = mset (enumerate 0 (proxy_data master_0))"
    by simp
  from fault_does_not_abort_batch [where m = master_0 and run = faulty_run and as_completed = rev,
      OF master_0_facts(5) faulty_run_well_scored perm master_0_facts(4)]
  obtain m' where e: "test_proxies_with faulty_run rev master_0 = Inr m'"
    and d: "proxy_data m' = proxy_data master_0"
    and a: "mset (active_proxies m') =
          mset (filter accepted (scored_results faulty_run (enumerate 0 (proxy_data master_0))))"
    and r: "reported faulty_run (enumerate 0 (proxy_data master_0)) (printed m')"
    by (elim exE conjE)
  define rE where "rE = scored proxy_E env_E1
        (map2 detail_of default_test_urls
           (responses env_E1 10 (PyStr ''10.0.0.1'') (PyStr ''8080'') 0 default_test_urls))
        (successful_elapsed validator_0 env_E1 (PyStr ''10.0.0.1'') (PyStr ''8080'')) 3"
  from a have "mset (active_proxies m') = {#rE#}"
    by (simp add: master_0_facts faulty_run_results accepted_scored_E1 rE_def)
  then have "active_proxies m' = [rE]" by (metis mset_single_iff_right)
  then have 1: "ips (active_proxies m') = [Some (PyStr ''10.0.0.1'')]"
    by (simp add: ips_def rE_def scored_ip proxy_E_ip_port)
  from r have 2: "ErrorTesting (PyStr ''10.0.0.2'') (PyStr ''3128'') (Fault ''unexpected'')
                    \<in> set (printed m')"
    by (simp add: master_0_facts reported_def task_reported_def proxy_F_ip_port faulty_run_def)
  from e d 1 2 show ?thesis by (simp add: master_0_facts)
qed

end
